theory Spec2Isabelle
  imports Main "HOL-Library.Multiset"
begin

section \<open>Data model\<close>

text \<open>
  The peer of the file-sharing engine: the chunk store and discovery table of
  \<^verbatim>\<open>FileManager\<close>, the control plane of \<^verbatim>\<open>UDPServer\<close> and the framed stream
  sender and receiver of \<^verbatim>\<open>TCPServer\<close>.  C++ \<^verbatim>\<open>int\<close> values are modelled as
  \<^typ>\<open>int\<close>; where the source converts an \<^verbatim>\<open>int\<close> to \<^verbatim>\<open>size_t\<close> the wrap-around
  modulo \<open>2 ^ 64\<close> is written out (\<open>static_cast_size_t\<close>).  Byte strings and
  \<^verbatim>\<open>std::string\<close> are \<^typ>\<open>string\<close>.
\<close>

record ChunkLocationInfo =
  ip :: string
  port :: int
  transfer_speed :: int

datatype LogType =
  ERROR | INFO | DISCOVERY_RECEIVED | DISCOVERY_SENT | REQUEST_RECEIVED | REQUEST_SENT
  | RESPONSE_RECEIVED | RESPONSE_SENT | CHUNK_SENT | CHUNK_RECEIVED | SUCCESS | OTHER

text \<open>Exceptions of the standard library that the modelled code can raise.\<close>

datatype error =
  Out_of_range      \<comment> \<open>\<^verbatim>\<open>unordered_map::at\<close> on a missing key\<close>
  | Length_error    \<comment> \<open>\<^verbatim>\<open>vector::resize\<close> beyond \<^verbatim>\<open>max_size()\<close>\<close>
  | Invalid_argument \<comment> \<open>\<^verbatim>\<open>std::stoi\<close> without digits\<close>
  | Indeterminate_value \<comment> \<open>an \<^verbatim>\<open>int\<close> is read that was never written\<close>
  | Buffer_overrun  \<comment> \<open>\<^verbatim>\<open>send\<close> is given a length beyond the end of the buffer\<close>

text \<open>The datagrams of the control plane, after tokenisation.\<close>

datatype udp_message =
  DISCOVERY string int int string int   \<comment> \<open>file, total chunks, ttl, origin ip, origin port\<close>
  | RESPONSE string int "int list"      \<comment> \<open>file, advertised rate, chunk ids\<close>
  | REQUEST string int "int list"       \<comment> \<open>file, stream port, chunk ids\<close>
  | UNKNOWN string                      \<comment> \<open>any other leading token\<close>

text \<open>What the stream sender does on its socket: a block handed to \<^verbatim>\<open>send\<close>, or a
  one-second sleep.\<close>

datatype tcp_event = Send string | Sleep_1s

record peer =
  \<comment> \<open>identity (\<^verbatim>\<open>UDPServer\<close> and \<^verbatim>\<open>TCPServer\<close> members)\<close>
  srv_ip :: string
  srv_port :: int
  srv_tcp_port :: int
  srv_transfer_speed :: int
  udpNeighbors :: "(string \<times> int) list"
  \<comment> \<open>\<^verbatim>\<open>FileManager\<close> members\<close>
  peer_id :: string
  directory :: string
  local_chunks :: "string \<Rightarrow> int set"
  local_chunks_mutex :: "string set"
  file_chunks :: "string \<Rightarrow> int"
  chunk_location_info :: "string \<rightharpoonup> ChunkLocationInfo list list"
  chunk_location_info_mutex :: "string set"
  \<comment> \<open>\<^verbatim>\<open>UDPServer\<close> members\<close>
  processing_active_map :: "string \<Rightarrow> bool"
  \<comment> \<open>the environment: disk, sockets, console\<close>
  files :: "string \<rightharpoonup> string"
  writable :: "string \<Rightarrow> bool"
  sendto_ok :: "string \<Rightarrow> int \<Rightarrow> bool"
  connect_ok :: "string \<Rightarrow> int \<Rightarrow> bool"
  udp_sent :: "(string \<times> int \<times> string) list"
  tcp_sent :: "(string \<times> int \<times> tcp_event list) list"
  log :: "(LogType \<times> string) list"

text \<open>
  \<^item> \<open>local_chunks\<close>, \<open>file_chunks\<close> and \<open>processing_active_map\<close> are maps that the
    source only reads through \<^verbatim>\<open>operator[]\<close> (or through \<^verbatim>\<open>find\<close> with the empty
    answer on a miss), so a missing key and a key with the default value (\<open>{}\<close>,
    \<open>0\<close>, \<open>False\<close>) are the same to it: they are total functions here.
  \<^item> \<open>chunk_location_info\<close> is read with \<^verbatim>\<open>find\<close> and \<^verbatim>\<open>at\<close>, which tell a missing key
    from an empty vector: it is a partial map.  The two maps of mutexes are the sets
    of their keys.
  \<^item> \<open>files p = Some bytes\<close> when the file at path \<open>p\<close> can be opened for reading and
    holds \<open>bytes\<close>; \<open>writable p\<close> when an \<^verbatim>\<open>ofstream\<close> on \<open>p\<close> opens.
  \<^item> \<open>udp_sent\<close> lists the calls of \<^verbatim>\<open>sendto\<close> (destination and datagram text), in
    order; \<open>sendto_ok\<close> tells whether the call to a destination succeeds, which the
    source only uses to choose between a log line and \<^verbatim>\<open>perror\<close>.
  \<^item> \<open>tcp_sent\<close> lists the outbound stream connections: the destination and what was
    done on the socket; \<open>connect_ok\<close> tells whether \<^verbatim>\<open>connect\<close> to a destination
    succeeds.  Every \<^verbatim>\<open>send\<close> transmits the whole block it is given.
  \<^item> \<open>log\<close> lists the calls of \<^verbatim>\<open>logMessage\<close>: the \<^verbatim>\<open>LogType\<close> and the text, the
    Portuguese wording written without diacritics.  The progress lines that the
    stream loops print for every block are not recorded.
  \<^item> A handler runs from its first statement to its last on the state it is given:
    the interleaving of the source's threads is outside the model.
\<close>

subsection \<open>Library functions\<close>

text \<open>\<^verbatim>\<open>std::to_string\<close> of an \<^verbatim>\<open>int\<close>: the decimal digits, after a minus sign for a
  negative number.\<close>

fun digits :: "nat \<Rightarrow> string" where
  "digits n =
     (if n < 10 then [''0123456789'' ! n]
      else digits (n div 10) @ [''0123456789'' ! (n mod 10)])"

declare digits.simps [simp del]

definition to_string :: "int \<Rightarrow> string" where
  "to_string i = (if i < 0 then CHR ''-'' # digits (nat (- i)) else digits (nat i))"

definition static_cast_size_t :: "int \<Rightarrow> nat" where
  "static_cast_size_t i = nat (i mod 2 ^ 64)"

definition logMessage :: "peer \<Rightarrow> LogType \<Rightarrow> string \<Rightarrow> peer" where
  "logMessage s t msg = s\<lparr>log := log s @ [(t, msg)]\<rparr>"

definition displaySuccessMessage :: "peer \<Rightarrow> string \<Rightarrow> string \<Rightarrow> peer" where
  "displaySuccessMessage s file_name pid =
     s\<lparr>log := log s @
        [(SUCCESS, ''Arquivo '' @ file_name @ '' montado com sucesso no Peer '' @ pid @ ''!'')]\<rparr>"

text \<open>
  \<^verbatim>\<open>os << is.rdbuf()\<close> on an \<^verbatim>\<open>ofstream\<close> on path \<open>p\<close> whose state is \<open>good\<close>: a stream
  that is not good inserts nothing; a good stream appends the bytes, and when there
  is no byte to insert it sets \<^verbatim>\<open>failbit\<close> (C++ standard, [ostream.inserters]: "If the
  function inserts no characters, it calls setstate(failbit)").  The result is the
  new state and whether the stream is still good.
\<close>

definition insert_rdbuf :: "peer \<Rightarrow> string \<Rightarrow> bool \<Rightarrow> string \<Rightarrow> peer \<times> bool" where
  "insert_rdbuf s p good bytes =
     (if \<not> good then (s, False)
      else if bytes = [] then (s, False)
      else (s\<lparr>files := (files s)(p \<mapsto> (case files s p of None \<Rightarrow> [] | Some old \<Rightarrow> old) @ bytes)\<rparr>,
            True))"

text \<open>Opening an \<^verbatim>\<open>ofstream\<close> on \<open>p\<close> (truncating): the new state and \<^verbatim>\<open>is_open()\<close>.\<close>

definition ofstream_open :: "peer \<Rightarrow> string \<Rightarrow> peer \<times> bool" where
  "ofstream_open s p =
     (if writable s p then (s\<lparr>files := (files s)(p \<mapsto> [])\<rparr>, True) else (s, False))"

subsection \<open>FileManager\<close>

definition BASE_PATH :: string where
  "BASE_PATH = ''./src/''"

definition getChunkPath :: "peer \<Rightarrow> string \<Rightarrow> int \<Rightarrow> string" where
  "getChunkPath s file_name chunk = directory s @ ''/'' @ file_name @ ''.ch'' @ to_string chunk"

definition initializeFileChunks :: "peer \<Rightarrow> string \<Rightarrow> int \<Rightarrow> peer" where
  "initializeFileChunks s file_name total_chunks =
     s\<lparr>file_chunks := (file_chunks s)(file_name := total_chunks)\<rparr>"

text \<open>\<^verbatim>\<open>max_size()\<close> of a vector of vectors (24 bytes an element) on a 64-bit target.\<close>

definition vector_max_size :: nat where
  "vector_max_size = (2 ^ 63 - 1) div 24"

definition initializeChunkLocationInfo :: "peer \<Rightarrow> string \<Rightarrow> error + peer" where
  "initializeChunkLocationInfo s file_name =
     (let total_chunks = file_chunks s file_name in
      case chunk_location_info s file_name of
        None \<Rightarrow>
          if static_cast_size_t total_chunks > vector_max_size then Inl Length_error
          else Inr (s\<lparr>chunk_location_info :=
                         (chunk_location_info s)
                           (file_name \<mapsto> replicate (static_cast_size_t total_chunks) []),
                       chunk_location_info_mutex := insert file_name (chunk_location_info_mutex s)\<rparr>)
      | Some _ \<Rightarrow>
          Inr (s\<lparr>chunk_location_info_mutex := insert file_name (chunk_location_info_mutex s)\<rparr>))"

definition clearChunkLocationInfo :: "peer \<Rightarrow> string \<Rightarrow> peer" where
  "clearChunkLocationInfo s file_name =
     s\<lparr>chunk_location_info := (chunk_location_info s)(file_name := None),
       chunk_location_info_mutex := chunk_location_info_mutex s - {file_name}\<rparr>"

text \<open>The loop of \<open>assembleFile\<close> over \<open>i = 0, ..., total_chunks - 1\<close>; \<open>good\<close> is the
  state of the output stream.  An unopenable chunk returns \<open>False\<close> at once.\<close>

function assemble_loop ::
  "peer \<Rightarrow> string \<Rightarrow> string \<Rightarrow> int \<Rightarrow> int \<Rightarrow> bool \<Rightarrow> bool \<times> peer \<times> bool" where
  "assemble_loop s file_name output_path total_chunks i good =
     (if i < total_chunks then
        (let chunk_path = getChunkPath s file_name i in
         case files s chunk_path of
           None \<Rightarrow> (False, logMessage s ERROR (''Erro ao abrir o chunk '' @ chunk_path), good)
         | Some bytes \<Rightarrow>
             (let (s', good') = insert_rdbuf s output_path good bytes
              in assemble_loop s' file_name output_path total_chunks (i + 1) good'))
      else (True, s, good))"
  by pat_completeness auto
termination
  by (relation "measure (\<lambda>(s, f, p, t, i, g). nat (t - i))") auto

declare assemble_loop.simps [simp del]

definition assembleFile :: "peer \<Rightarrow> string \<Rightarrow> bool \<times> peer" where
  "assembleFile s file_name =
     (let total_chunks = file_chunks s file_name;
          has_all_chunks = (card (local_chunks s file_name) = static_cast_size_t total_chunks)
      in if has_all_chunks then
           (let output_path = directory s @ ''/'' @ file_name;
                (s1, good) = ofstream_open s output_path;
                (completed, s2, good') = assemble_loop s1 file_name output_path total_chunks 0 good
            in if completed
               then (True, clearChunkLocationInfo (displaySuccessMessage s2 file_name (peer_id s2))
                             file_name)
               else (False, s2))
         else (False, s))"

definition saveChunk :: "peer \<Rightarrow> string \<Rightarrow> int \<Rightarrow> string \<Rightarrow> peer" where
  "saveChunk s file_name chunk data =
     (let s1 = s\<lparr>local_chunks_mutex := insert file_name (local_chunks_mutex s)\<rparr>;
          path = getChunkPath s1 file_name chunk;
          (s2, is_open) = ofstream_open s1 path
      in if \<not> is_open
         then logMessage s2 ERROR (''Nao foi possivel criar o arquivo para o chunk '' @ to_string chunk)
         else (let s3 = s2\<lparr>files := (files s2)(path \<mapsto> data)\<rparr>;
                   s4 = s3\<lparr>local_chunks :=
                             (local_chunks s3)(file_name := insert chunk (local_chunks s3 file_name))\<rparr>
               in snd (assembleFile s4 file_name)))"


definition getAvailableChunks :: "peer \<Rightarrow> string \<Rightarrow> int list \<times> peer" where
  "getAvailableChunks s file_name =
     (sorted_list_of_set (local_chunks s file_name),
      s\<lparr>local_chunks_mutex := insert file_name (local_chunks_mutex s)\<rparr>)"

definition hasChunk :: "peer \<Rightarrow> string \<Rightarrow> int \<Rightarrow> bool \<times> peer" where
  "hasChunk s file_name chunk =
     (chunk \<in> local_chunks s file_name,
      s\<lparr>local_chunks_mutex := insert file_name (local_chunks_mutex s)\<rparr>)"

text \<open>The text of the error that \<open>storeChunkLocationInfo\<close> logs.\<close>

definition out_of_range_text :: "string \<Rightarrow> int \<Rightarrow> string" where
  "out_of_range_text file_name chunk_id =
     ''chunk_id '' @ to_string chunk_id @ '' esta fora do intervalo para o arquivo: '' @ file_name"

text \<open>One turn of the loop of \<open>storeChunkLocationInfo\<close>.  \<^verbatim>\<open>chunk_location_info[file_name]\<close>
  creates an empty vector for a file that has none; the \<^verbatim>\<open>int\<close> \<open>chunk_id\<close> is compared
  and used as an index after conversion to \<^verbatim>\<open>size_t\<close>.\<close>

definition store_chunk_id :: "string \<Rightarrow> string \<Rightarrow> int \<Rightarrow> int \<Rightarrow> peer \<Rightarrow> int \<Rightarrow> peer" where
  "store_chunk_id file_name sender_ip sender_port speed s chunk_id =
     (let table = (case chunk_location_info s file_name of None \<Rightarrow> [] | Some t \<Rightarrow> t);
          s1 = s\<lparr>chunk_location_info := (chunk_location_info s)(file_name \<mapsto> table)\<rparr>
      in if static_cast_size_t chunk_id < length table then
           (let chunk_list = table ! static_cast_size_t chunk_id;
                peer_exists = list_ex (\<lambda>cli. ip cli = sender_ip \<and> port cli = sender_port) chunk_list
            in if \<not> peer_exists
               then s1\<lparr>chunk_location_info :=
                         (chunk_location_info s1)
                           (file_name \<mapsto>
                              table[static_cast_size_t chunk_id :=
                                      chunk_list @
                                      [\<lparr>ip = sender_ip, port = sender_port, transfer_speed = speed\<rparr>]])\<rparr>
               else s1)
         else logMessage s1 ERROR (out_of_range_text file_name chunk_id))"

fun store_loop :: "string \<Rightarrow> string \<Rightarrow> int \<Rightarrow> int \<Rightarrow> peer \<Rightarrow> int list \<Rightarrow> peer" where
  "store_loop file_name sender_ip sender_port speed s [] = s"
| "store_loop file_name sender_ip sender_port speed s (chunk_id # chunk_ids) =
     store_loop file_name sender_ip sender_port speed
       (store_chunk_id file_name sender_ip sender_port speed s chunk_id) chunk_ids"

definition storeChunkLocationInfo ::
  "peer \<Rightarrow> string \<Rightarrow> int list \<Rightarrow> string \<Rightarrow> int \<Rightarrow> int \<Rightarrow> peer" where
  "storeChunkLocationInfo s file_name chunk_ids sender_ip sender_port speed =
     store_loop file_name sender_ip sender_port speed
       (s\<lparr>chunk_location_info_mutex := insert file_name (chunk_location_info_mutex s)\<rparr>)
       chunk_ids"

subsection \<open>The assignment planner\<close>

text \<open>
  \<^verbatim>\<open>std::sort(first, last, comp)\<close> with \<open>comp a b = (a.transfer_speed > b.transfer_speed)\<close>
  leaves the vector a permutation of itself in which no element is followed by one
  that \<open>comp\<close> puts before it, and promises nothing about the order of elements of
  equal speed.  \<open>std_sort srt\<close> has exactly these outcomes: it answers as the
  function \<open>srt\<close> wherever that answer is such an outcome, and as a stable insertion
  sort elsewhere.  Every function of the source that sorts takes \<open>srt\<close> as a
  parameter, and what is proved holds for every \<open>srt\<close>.
\<close>

fun insert_by_speed :: "ChunkLocationInfo \<Rightarrow> ChunkLocationInfo list \<Rightarrow> ChunkLocationInfo list" where
  "insert_by_speed x [] = [x]"
| "insert_by_speed x (y # ys) =
     (if transfer_speed x > transfer_speed y then x # y # ys else y # insert_by_speed x ys)"

definition insertion_sort_by_speed :: "ChunkLocationInfo list \<Rightarrow> ChunkLocationInfo list" where
  "insertion_sort_by_speed xs = foldr insert_by_speed xs []"

definition sorted_by_speed :: "ChunkLocationInfo list \<Rightarrow> bool" where
  "sorted_by_speed xs = sorted_wrt (\<lambda>a b. \<not> transfer_speed b > transfer_speed a) xs"

definition std_sort ::
  "(ChunkLocationInfo list \<Rightarrow> ChunkLocationInfo list) \<Rightarrow> ChunkLocationInfo list
     \<Rightarrow> ChunkLocationInfo list" where
  "std_sort srt xs =
     (if mset (srt xs) = mset xs \<and> sorted_by_speed (srt xs) then srt xs
      else insertion_sort_by_speed xs)"

text \<open>
  \<^verbatim>\<open>std::unordered_map<std::string, std::vector<int>>\<close> as an association list with
  distinct keys, in the order the keys were created (the iteration order of the
  source's map is unspecified).  \<open>map_index\<close> is the effect of \<^verbatim>\<open>m[key]\<close> on the map:
  a missing key is created with an empty vector.
\<close>

type_synonym chunks_by_peer = "(string \<times> int list) list"

definition peer_key :: "ChunkLocationInfo \<Rightarrow> string" where
  "peer_key p = ip p @ '':'' @ to_string (port p)"

definition map_index :: "chunks_by_peer \<Rightarrow> string \<Rightarrow> chunks_by_peer" where
  "map_index m key = (if key \<in> fst ` set m then m else m @ [(key, [])])"

definition chunks_of :: "chunks_by_peer \<Rightarrow> string \<Rightarrow> int list" where
  "chunks_of m key = (case map_of m key of None \<Rightarrow> [] | Some chunks \<Rightarrow> chunks)"

definition push_back :: "chunks_by_peer \<Rightarrow> string \<Rightarrow> int \<Rightarrow> chunks_by_peer" where
  "push_back m key chunk =
     map (\<lambda>(k, chunks). if k = key then (k, chunks @ [chunk]) else (k, chunks)) (map_index m key)"

text \<open>The inner loop over the sorted providers: the map (every key it reads is
  created) and the provider selected so far, its key and its number of chunks.\<close>

fun select_loop ::
  "ChunkLocationInfo list \<Rightarrow> chunks_by_peer \<Rightarrow> ChunkLocationInfo \<times> string \<times> int
     \<Rightarrow> chunks_by_peer \<times> ChunkLocationInfo \<times> string \<times> int" where
  "select_loop [] m selected = (m, selected)"
| "select_loop (peer # rest) m (selected_peer, selected_peer_key, min_chunks_assigned) =
     (let current_peer_key = peer_key peer;
          m' = map_index m current_peer_key;
          chunks_assigned_to_current_peer = int (length (chunks_of m' current_peer_key))
      in if chunks_assigned_to_current_peer < min_chunks_assigned
         then select_loop rest m' (peer, current_peer_key, chunks_assigned_to_current_peer)
         else select_loop rest m' (selected_peer, selected_peer_key, min_chunks_assigned))"

text \<open>The outer loop over the chunks of the snapshot, from \<open>chunk_index\<close> on.  The
  snapshot has at most \<^verbatim>\<open>INT_MAX\<close> entries (it was sized from an \<^verbatim>\<open>int\<close>), so
  \<^verbatim>\<open>static_cast<int>(chunk_index)\<close> is \<open>int chunk_index\<close>.\<close>

fun plan_loop ::
  "(ChunkLocationInfo list \<Rightarrow> ChunkLocationInfo list) \<Rightarrow> nat \<Rightarrow> ChunkLocationInfo list list
     \<Rightarrow> chunks_by_peer \<Rightarrow> chunks_by_peer" where
  "plan_loop srt chunk_index [] m = m"
| "plan_loop srt chunk_index (available_peers_for_chunk # rest) m =
     (if available_peers_for_chunk \<noteq> [] then
        (let sorted_peers_by_speed = std_sort srt available_peers_for_chunk;
             selected_peer = sorted_peers_by_speed ! 0;
             selected_peer_key = peer_key selected_peer;
             m1 = map_index m selected_peer_key;
             min_chunks_assigned = int (length (chunks_of m1 selected_peer_key));
             (m2, final_peer, final_key, final_min) =
               select_loop sorted_peers_by_speed m1
                 (selected_peer, selected_peer_key, min_chunks_assigned)
         in plan_loop srt (Suc chunk_index) rest (push_back m2 final_key (int chunk_index)))
      else plan_loop srt (Suc chunk_index) rest m)"

definition selectPeersForChunkDownload ::
  "(ChunkLocationInfo list \<Rightarrow> ChunkLocationInfo list) \<Rightarrow> peer \<Rightarrow> string
     \<Rightarrow> (error + chunks_by_peer) \<times> peer" where
  "selectPeersForChunkDownload srt s file_name =
     (let s1 = s\<lparr>chunk_location_info_mutex := insert file_name (chunk_location_info_mutex s)\<rparr>
      in case chunk_location_info s1 file_name of
           None \<Rightarrow> (Inl Out_of_range, s1)
         | Some chunks_with_peer_info \<Rightarrow> (Inr (plan_loop srt 0 chunks_with_peer_info []), s1))"

text \<open>
  The reference algorithm, from the words of the specification: chunks in index
  order; a chunk without providers is skipped; otherwise the chunk's providers are
  sorted by descending advertised rate, and among them the one with the fewest
  chunks in the running map is chosen, the earliest in the sorted order among
  several with the fewest; the chunk is appended to that provider's list.  The
  running map is read without being changed (a provider without an entry has no
  chunks); only the provider that is chosen gets an entry.
\<close>

definition fewest_assigned :: "chunks_by_peer \<Rightarrow> ChunkLocationInfo list \<Rightarrow> nat" where
  "fewest_assigned running candidates =
     Min (set (map (\<lambda>p. length (chunks_of running (peer_key p))) candidates))"

definition reference_choice ::
  "chunks_by_peer \<Rightarrow> ChunkLocationInfo list \<Rightarrow> ChunkLocationInfo option" where
  "reference_choice running candidates =
     find (\<lambda>p. length (chunks_of running (peer_key p)) = fewest_assigned running candidates)
       candidates"

fun reference_plan ::
  "(ChunkLocationInfo list \<Rightarrow> ChunkLocationInfo list) \<Rightarrow> nat \<Rightarrow> ChunkLocationInfo list list
     \<Rightarrow> chunks_by_peer \<Rightarrow> chunks_by_peer" where
  "reference_plan srt i [] running = running"
| "reference_plan srt i (providers # rest) running =
     (if providers = [] then reference_plan srt (Suc i) rest running
      else case reference_choice running (std_sort srt providers) of
             None \<Rightarrow> reference_plan srt (Suc i) rest running
           | Some p \<Rightarrow> reference_plan srt (Suc i) rest (push_back running (peer_key p) (int i)))"

text \<open>
  The provider the inner loop of \<open>selectPeersForChunkDownload\<close> ends with, as a
  function of the number of chunks each provider has: the loop starts from
  \<open>selected\<close> and moves to a later provider only when that one has strictly fewer
  chunks than the provider selected so far.
\<close>

fun first_fewest ::
  "(ChunkLocationInfo \<Rightarrow> nat) \<Rightarrow> ChunkLocationInfo \<Rightarrow> ChunkLocationInfo list \<Rightarrow> ChunkLocationInfo" where
  "first_fewest load selected [] = selected"
| "first_fewest load selected (p # ps) =
     (if load p < load selected then first_fewest load p ps
      else first_fewest load selected ps)"

subsection \<open>TCPServer: the stream sender and the reading of the control header\<close>

definition CONTROL_MESSAGE_MAX_SIZE :: nat where
  "CONTROL_MESSAGE_MAX_SIZE = 1024"

definition NUL :: char where
  "NUL = CHR 0x00"

definition build_control_message :: "peer \<Rightarrow> string \<Rightarrow> int \<Rightarrow> nat \<Rightarrow> string" where
  "build_control_message s file_name chunk chunk_size =
     ''PUT '' @ file_name @ '' '' @ to_string chunk @ '' '' @ to_string (srv_transfer_speed s)
     @ '' '' @ to_string (int chunk_size)"

text \<open>The buffer \<^verbatim>\<open>control_message_buffer\<close> after the \<^verbatim>\<open>memcpy\<close> and the terminator.\<close>

definition fill_control_message_buffer :: "string \<Rightarrow> string" where
  "fill_control_message_buffer control_message =
     (let zeroed = replicate CONTROL_MESSAGE_MAX_SIZE NUL;
          bytes_to_copy = min (length control_message) (CONTROL_MESSAGE_MAX_SIZE - 1);
          copied = take bytes_to_copy control_message @ drop bytes_to_copy zeroed
      in copied[bytes_to_copy := NUL])"

text \<open>The loop that sends the control header.  \<open>bytes_to_send\<close> is computed as an
  \<^verbatim>\<open>int\<close> and converted to \<^verbatim>\<open>size_t\<close>: a negative rate asks \<^verbatim>\<open>send\<close> for more bytes
  than the buffer holds, and the loop ends there with \<open>Buffer_overrun\<close> (what the
  source does next depends on what \<^verbatim>\<open>send\<close> does with that request: where it fails,
  the \<^verbatim>\<open>-1\<close> is stored in a \<^verbatim>\<open>size_t\<close>, taken for bytes sent, and the source goes on
  with the payload without having sent a header); a rate of zero sends nothing and
  leaves the loop.  The trace records the blocks and the sleeps; the lines that the
  two sending loops write to the log (one for every block, and the line for a
  \<^verbatim>\<open>send\<close> that returned zero, as it does at a rate of zero) are not recorded.\<close>

function send_control_loop ::
  "int \<Rightarrow> string \<Rightarrow> nat \<Rightarrow> tcp_event list \<Rightarrow> error + tcp_event list" where
  "send_control_loop speed buffer total_bytes_sent trace =
     (if total_bytes_sent < CONTROL_MESSAGE_MAX_SIZE then
        (let bytes_to_send = min speed (int CONTROL_MESSAGE_MAX_SIZE - int total_bytes_sent)
         in if bytes_to_send < 0 then Inl Buffer_overrun
            else if bytes_to_send = 0 then Inr trace
            else send_control_loop speed buffer (total_bytes_sent + nat bytes_to_send)
                   (trace @ [Send (take (nat bytes_to_send) (drop total_bytes_sent buffer)),
                             Sleep_1s]))
      else Inr trace)"
  by pat_completeness auto
termination
  by (relation "measure (\<lambda>(speed, buffer, sent, trace). CONTROL_MESSAGE_MAX_SIZE - sent)")
     (auto simp: CONTROL_MESSAGE_MAX_SIZE_def)

declare send_control_loop.simps [simp del]

text \<open>The loop that sends the payload; here the rate is converted to \<^verbatim>\<open>size_t\<close> before
  the minimum is taken.\<close>

function send_chunk_loop :: "int \<Rightarrow> string \<Rightarrow> nat \<Rightarrow> tcp_event list \<Rightarrow> tcp_event list" where
  "send_chunk_loop speed file_buffer total_bytes_sent trace =
     (if total_bytes_sent < length file_buffer then
        (let bytes_to_send = min (static_cast_size_t speed) (length file_buffer - total_bytes_sent)
         in if bytes_to_send = 0 then trace
            else send_chunk_loop speed file_buffer (total_bytes_sent + bytes_to_send)
                   (trace @ [Send (take bytes_to_send (drop total_bytes_sent file_buffer)),
                             Sleep_1s]))
      else trace)"
  by pat_completeness auto
termination
  by (relation "measure (\<lambda>(speed, file_buffer, sent, trace). length file_buffer - sent)") auto

declare send_chunk_loop.simps [simp del]

text \<open>The body of the loop of \<open>sendChunks\<close> for a chunk whose file was read into
  \<open>file_buffer\<close>: the header, then the payload.\<close>

definition send_one_chunk :: "peer \<Rightarrow> string \<Rightarrow> int \<Rightarrow> string \<Rightarrow> error + tcp_event list" where
  "send_one_chunk s file_name chunk file_buffer =
     (let chunk_size = length file_buffer;
          control_message = build_control_message s file_name chunk chunk_size;
          buffer = fill_control_message_buffer control_message
      in case send_control_loop (srv_transfer_speed s) buffer 0 [] of
           Inl e \<Rightarrow> Inl e
         | Inr header_trace \<Rightarrow>
             Inr (send_chunk_loop (srv_transfer_speed s) file_buffer 0 header_trace))"

text \<open>The loop of \<open>sendChunks\<close> over the requested chunks.  A chunk whose file does
  not open is logged and skipped; after the two sending loops of a chunk the SUCCESS
  line is logged, also when they sent nothing.  Of the lines that \<open>sendChunks\<close>
  writes to the log these two are recorded.\<close>

fun sendChunks_loop ::
  "peer \<Rightarrow> string \<Rightarrow> string \<Rightarrow> int \<Rightarrow> int list \<Rightarrow> tcp_event list \<Rightarrow> error + peer \<times> tcp_event list" where
  "sendChunks_loop s file_name dest_ip dest_port [] trace = Inr (s, trace)"
| "sendChunks_loop s file_name dest_ip dest_port (chunk # chunks) trace =
     (case files s (getChunkPath s file_name chunk) of
        None \<Rightarrow>
          sendChunks_loop (logMessage s ERROR (''Chunk '' @ to_string chunk @ '' nao encontrado.''))
            file_name dest_ip dest_port chunks trace
      | Some file_buffer \<Rightarrow>
          (case send_one_chunk s file_name chunk file_buffer of
             Inl e \<Rightarrow> Inl e
           | Inr chunk_trace \<Rightarrow>
               sendChunks_loop
                 (logMessage s SUCCESS
                    (''SUCESSO AO ENVIAR O CHUNK '' @ to_string chunk @ '' DO ARQUIVO '' @ file_name
                     @ '' para '' @ dest_ip @ '':'' @ to_string dest_port))
                 file_name dest_ip dest_port chunks (trace @ chunk_trace)))"

definition sendChunks :: "peer \<Rightarrow> string \<Rightarrow> int list \<Rightarrow> string \<Rightarrow> int \<Rightarrow> error + peer" where
  "sendChunks s file_name chunks dest_ip dest_port =
     (if \<not> connect_ok s dest_ip dest_port then Inr s
      else case sendChunks_loop s file_name dest_ip dest_port chunks [] of
             Inl e \<Rightarrow> Inl e
           | Inr (s', trace) \<Rightarrow> Inr (s'\<lparr>tcp_sent := tcp_sent s' @ [(dest_ip, dest_port, trace)]\<rparr>))"

text \<open>
  The receiver.  The bytes that arrive on the connection are a list of segments;
  \<open>recv segments n\<close> is one call of \<^verbatim>\<open>recv\<close> with a buffer of \<open>n\<close> bytes: it returns
  the next segment, or its first \<open>n\<close> bytes when it is longer, and the empty block
  when the peer has closed the connection.
\<close>

fun recv :: "string list \<Rightarrow> nat \<Rightarrow> string \<times> string list" where
  "recv [] n = ([], [])"
| "recv (segment # segments) n =
     (if length segment \<le> n then (segment, segments)
      else (take n segment, drop n segment # segments))"

text \<open>The \<^verbatim>\<open>do ... while\<close> loop of \<open>receiveChunks\<close> that reads the control header:
  \<open>None\<close> when the connection closes before 1024 bytes were read.\<close>

function recv_control_message ::
  "string list \<Rightarrow> string \<Rightarrow> nat \<Rightarrow> string option \<times> string list" where
  "recv_control_message segments control_message control_message_total_bytes_received =
     (let (block, segments') = recv segments CONTROL_MESSAGE_MAX_SIZE
      in if block = [] then (None, segments')
         else (let control_message' = control_message @ block;
                   total' = control_message_total_bytes_received + length block
               in if total' < CONTROL_MESSAGE_MAX_SIZE
                  then recv_control_message segments' control_message' total'
                  else (Some control_message', segments')))"
  by pat_completeness auto
termination
  by (relation "measure (\<lambda>(segments, cm, received). CONTROL_MESSAGE_MAX_SIZE - received)")
     (auto simp: CONTROL_MESSAGE_MAX_SIZE_def neq_Nil_conv)

declare recv_control_message.simps [simp del]

text \<open>Stripping the NUL padding at the end of a frame.\<close>

definition strip_nul_padding :: "string \<Rightarrow> string" where
  "strip_nul_padding frame = rev (dropWhile (\<lambda>c. c = NUL) (rev frame))"

text \<open>The blocks handed to \<^verbatim>\<open>send\<close> in a trace, and the number of sleeps between the
  first and the last of them.\<close>

fun sent_blocks :: "tcp_event list \<Rightarrow> string list" where
  "sent_blocks [] = []"
| "sent_blocks (Send block # trace) = block # sent_blocks trace"
| "sent_blocks (Sleep_1s # trace) = sent_blocks trace"

fun is_Send :: "tcp_event \<Rightarrow> bool" where
  "is_Send (Send block) = True"
| "is_Send Sleep_1s = False"

definition sleeps_between_first_and_last_send :: "tcp_event list \<Rightarrow> nat" where
  "sleeps_between_first_and_last_send trace =
     length (filter (\<lambda>e. e = Sleep_1s)
       (rev (dropWhile (\<lambda>e. \<not> is_Send e) (rev (dropWhile (\<lambda>e. \<not> is_Send e) trace)))))"

subsection \<open>UDPServer\<close>

definition sendUDPMessage :: "peer \<Rightarrow> string \<Rightarrow> int \<Rightarrow> string \<Rightarrow> peer \<times> bool" where
  "sendUDPMessage s dest_ip dest_port message =
     (s\<lparr>udp_sent := udp_sent s @ [(dest_ip, dest_port, message)]\<rparr>, sendto_ok s dest_ip dest_port)"

definition buildChunkDiscoveryMessage :: "string \<Rightarrow> int \<Rightarrow> int \<Rightarrow> string \<Rightarrow> int \<Rightarrow> string" where
  "buildChunkDiscoveryMessage file_name total_chunks ttl requester_ip requester_port =
     ''DISCOVERY '' @ file_name @ '' '' @ to_string total_chunks @ '' '' @ to_string ttl @ '' ''
     @ requester_ip @ '':'' @ to_string requester_port"

definition buildChunkResponseMessage :: "peer \<Rightarrow> string \<Rightarrow> int list \<Rightarrow> string" where
  "buildChunkResponseMessage s file_name chunks_available =
     ''RESPONSE '' @ file_name @ '' '' @ to_string (srv_transfer_speed s) @ '' ''
     @ concat (map (\<lambda>chunk. to_string chunk @ '' '') chunks_available)"

definition buildChunkRequestMessage :: "peer \<Rightarrow> string \<Rightarrow> int list \<Rightarrow> string" where
  "buildChunkRequestMessage s file_name chunks =
     ''REQUEST '' @ file_name @ '' '' @ to_string (srv_tcp_port s) @ '' ''
     @ concat (map (\<lambda>chunk. to_string chunk @ '' '') chunks)"

definition initializeProcessingActive :: "peer \<Rightarrow> string \<Rightarrow> peer" where
  "initializeProcessingActive s file_name =
     s\<lparr>processing_active_map := (processing_active_map s)(file_name := True)\<rparr>"

definition waitForResponses :: "peer \<Rightarrow> string \<Rightarrow> peer" where
  "waitForResponses s file_name =
     logMessage (s\<lparr>processing_active_map := (processing_active_map s)(file_name := False)\<rparr>) INFO
       (''Processamento de mensagens RESPONSE desativado para o arquivo: '' @ file_name)"

text \<open>The loop of \<open>sendChunkDiscoveryMessage\<close> over the neighbours (a pause of one
  second follows every send).\<close>

fun discovery_loop :: "peer \<Rightarrow> string \<Rightarrow> (string \<times> int) list \<Rightarrow> peer" where
  "discovery_loop s message [] = s"
| "discovery_loop s message ((neighbor_ip, neighbor_port) # neighbors) =
     (let (s1, sent) = sendUDPMessage s neighbor_ip neighbor_port message;
          s2 = (if sent
                then logMessage s1 DISCOVERY_SENT
                       (''Mensagem de descoberta enviada para Peer '' @ neighbor_ip @ '':''
                        @ to_string neighbor_port @ '' -> '' @ message)
                else s1)
      in discovery_loop s2 message neighbors)"

definition sendChunkDiscoveryMessage ::
  "peer \<Rightarrow> string \<Rightarrow> int \<Rightarrow> int \<Rightarrow> string \<Rightarrow> int \<Rightarrow> peer" where
  "sendChunkDiscoveryMessage s file_name total_chunks ttl requester_ip requester_port =
     discovery_loop s
       (buildChunkDiscoveryMessage file_name total_chunks ttl requester_ip requester_port)
       (udpNeighbors s)"

definition sendChunkResponseMessage :: "peer \<Rightarrow> string \<Rightarrow> string \<Rightarrow> int \<Rightarrow> peer" where
  "sendChunkResponseMessage s file_name requester_ip requester_port =
     (let (chunks_available, s1) = getAvailableChunks s file_name
      in if chunks_available \<noteq> [] then
           (let response_message = buildChunkResponseMessage s1 file_name chunks_available;
                (s2, sent) = sendUDPMessage s1 requester_ip requester_port response_message
            in if \<not> sent then s2
               else logMessage s2 RESPONSE_SENT
                      (''Enviada resposta para o Peer '' @ requester_ip @ '':''
                       @ to_string requester_port @ '' com chunks disponiveis do arquivo '' @ file_name
                       @ '': '' @ concat (map (\<lambda>chunk. to_string chunk @ '' '') chunks_available)))
         else logMessage s1 INFO (''Nenhum chunk disponivel para o arquivo '' @ file_name))"

definition processChunkDiscoveryMessage ::
  "peer \<Rightarrow> string \<Rightarrow> int \<Rightarrow> int \<Rightarrow> string \<Rightarrow> int \<Rightarrow> string \<Rightarrow> int \<Rightarrow> peer" where
  "processChunkDiscoveryMessage s file_name total_chunks ttl chunk_requester_ip
       chunk_requester_port direct_sender_ip direct_sender_port =
     (if chunk_requester_ip \<noteq> srv_ip s \<or> chunk_requester_port \<noteq> srv_port s then
        (let s1 = logMessage s DISCOVERY_RECEIVED
                    (''Recebido pedido de descoberta do arquivo '' @ file_name @ '' com TTL ''
                     @ to_string ttl @ '' do Peer '' @ direct_sender_ip @ '':''
                     @ to_string direct_sender_port @ ''. Resposta sera enviada para o Peer ''
                     @ chunk_requester_ip @ '':'' @ to_string chunk_requester_port);
             s2 = sendChunkResponseMessage s1 file_name chunk_requester_ip chunk_requester_port
         in if ttl > 0
            then sendChunkDiscoveryMessage s2 file_name total_chunks (ttl - 1) chunk_requester_ip
                   chunk_requester_port
            else s2)
      else s)"

text \<open>The loop of \<open>processChunkResponseMessage\<close> that keeps the chunks the peer does
  not hold.\<close>

fun response_chunks_loop :: "peer \<Rightarrow> string \<Rightarrow> int list \<Rightarrow> int list \<Rightarrow> int list \<times> peer" where
  "response_chunks_loop s file_name [] chunks_received = (chunks_received, s)"
| "response_chunks_loop s file_name (chunk # chunks) chunks_received =
     (let (has_chunk, s1) = hasChunk s file_name chunk
      in if \<not> has_chunk then response_chunks_loop s1 file_name chunks (chunks_received @ [chunk])
         else response_chunks_loop s1 file_name chunks chunks_received)"

definition processChunkResponseMessage ::
  "peer \<Rightarrow> string \<Rightarrow> int \<Rightarrow> int list \<Rightarrow> string \<Rightarrow> int \<Rightarrow> peer" where
  "processChunkResponseMessage s file_name speed chunks direct_sender_ip direct_sender_port =
     (let (chunks_received, s1) = response_chunks_loop s file_name chunks []
      in if length chunks_received > 0 then
           logMessage
             (storeChunkLocationInfo s1 file_name chunks_received direct_sender_ip
                direct_sender_port speed)
             RESPONSE_RECEIVED
             (''Recebida resposta do Peer '' @ direct_sender_ip @ '':'' @ to_string direct_sender_port
              @ '' para o arquivo '' @ file_name @ ''. Chunks disponiveis: ''
              @ concat (map (\<lambda>chunk. to_string chunk @ '' '') chunks_received))
         else s1)"

definition processChunkRequestMessage ::
  "peer \<Rightarrow> string \<Rightarrow> int \<Rightarrow> int list \<Rightarrow> string \<Rightarrow> int \<Rightarrow> error + peer" where
  "processChunkRequestMessage s file_name requester_tcp_port requested_chunks direct_sender_ip
       direct_sender_port =
     sendChunks
       (logMessage s REQUEST_RECEIVED
          (''Recebida requisicao de chunks do Peer '' @ direct_sender_ip @ '':''
           @ to_string direct_sender_port @ '' para o arquivo '' @ file_name
           @ ''. Chunks solicitados: ''
           @ concat (map (\<lambda>chunk. to_string chunk @ '' '') requested_chunks)))
       file_name requested_chunks direct_sender_ip requester_tcp_port"

definition processMessage :: "peer \<Rightarrow> udp_message \<Rightarrow> string \<Rightarrow> int \<Rightarrow> error + peer" where
  "processMessage s message direct_sender_ip direct_sender_port =
     (case message of
        DISCOVERY file_name total_chunks ttl requester_ip requester_port \<Rightarrow>
          Inr (processChunkDiscoveryMessage s file_name total_chunks ttl requester_ip
                 requester_port direct_sender_ip direct_sender_port)
      | RESPONSE file_name speed chunks \<Rightarrow>
          if processing_active_map s file_name
          then Inr (processChunkResponseMessage s file_name speed chunks direct_sender_ip
                      direct_sender_port)
          else Inr (logMessage s OTHER
                      (''Mensagem RESPONSE recebida para '' @ file_name
                       @ '', mas o processamento esta desativado.''))
      | REQUEST file_name requester_tcp_port chunks \<Rightarrow>
          processChunkRequestMessage s file_name requester_tcp_port chunks direct_sender_ip
            direct_sender_port
      | UNKNOWN command \<Rightarrow>
          Inr (logMessage s ERROR (''Comando desconhecido recebido: '' @ command)))"

text \<open>\<^verbatim>\<open>std::stoi\<close> in base 10: white space, a sign, digits.\<close>

definition isspace :: "char \<Rightarrow> bool" where
  "isspace c = (c \<in> set [CHR '' '', CHR 0x09, CHR 0x0A, CHR 0x0B, CHR 0x0C, CHR 0x0D])"

definition isdigit :: "char \<Rightarrow> bool" where
  "isdigit c = (48 \<le> (of_char c :: nat) \<and> (of_char c :: nat) \<le> 57)"

definition digits_value :: "string \<Rightarrow> nat" where
  "digits_value ds = foldl (\<lambda>acc c. 10 * acc + (of_char c - 48)) 0 ds"

definition split_sign :: "string \<Rightarrow> bool \<times> string" where
  "split_sign cs =
     (case cs of
        [] \<Rightarrow> (False, [])
      | c # rest \<Rightarrow>
          if c = CHR ''-'' then (True, rest) else if c = CHR ''+'' then (False, rest)
          else (False, cs))"

definition stoi :: "string \<Rightarrow> error + int" where
  "stoi str =
     (let (negative, unsigned) = split_sign (dropWhile isspace str);
          ds = takeWhile isdigit unsigned;
          v = (if negative then - int (digits_value ds) else int (digits_value ds))
      in if ds = [] then Inl Invalid_argument
         else if v < - (2 ^ 31) \<or> 2 ^ 31 \<le> v then Inl Out_of_range
         else Inr v)"

text \<open>The loop of \<open>sendChunkRequestMessage\<close> over the plan.  A key without a colon
  would leave \<^verbatim>\<open>peer_port\<close> unwritten.\<close>

fun request_loop :: "peer \<Rightarrow> string \<Rightarrow> chunks_by_peer \<Rightarrow> error + peer" where
  "request_loop s file_name [] = Inr s"
| "request_loop s file_name ((peer_ip_port, chunks) # plan) =
     (let request_message = buildChunkRequestMessage s file_name chunks
      in if CHR '':'' \<in> set peer_ip_port then
           (let peer_ip = takeWhile (\<lambda>c. c \<noteq> CHR '':'') peer_ip_port
            in case stoi (drop (length peer_ip + 1) peer_ip_port) of
                 Inl e \<Rightarrow> Inl e
               | Inr peer_port \<Rightarrow>
                   (let (s1, sent) = sendUDPMessage s peer_ip peer_port request_message;
                        s2 = (if sent
                              then logMessage s1 REQUEST_SENT
                                     (''Mensagem REQUEST enviada para '' @ peer_ip_port @ '' -> ''
                                      @ request_message)
                              else s1)
                    in request_loop s2 file_name plan))
         else Inl Indeterminate_value)"

definition sendChunkRequestMessage ::
  "(ChunkLocationInfo list \<Rightarrow> ChunkLocationInfo list) \<Rightarrow> peer \<Rightarrow> string \<Rightarrow> error + peer" where
  "sendChunkRequestMessage srt s file_name =
     (case selectPeersForChunkDownload srt s file_name of
        (Inl e, s1) \<Rightarrow> Inl e
      | (Inr chunks_by_peer, s1) \<Rightarrow> request_loop s1 file_name chunks_by_peer)"

subsection \<open>The metadata reader and the peer coordinator\<close>

text \<open>
  \<^verbatim>\<open>stream >> value\<close> for an \<^verbatim>\<open>int\<close> on a stream that is good, with the input that is
  left: what is written to \<open>value\<close> (\<open>None\<close>: nothing, the variable keeps what it
  held), whether the stream is still good, and the input left.  White space is
  skipped; at the end of the input nothing is written; where no number can be read
  zero is written; a number outside \<^verbatim>\<open>int\<close> writes the nearest bound; each of these
  sets \<^verbatim>\<open>failbit\<close>, and reading up to the end of the input sets \<^verbatim>\<open>eofbit\<close>.
\<close>

definition extract_int :: "string \<Rightarrow> int option \<times> bool \<times> string" where
  "extract_int input =
     (let skipped = dropWhile isspace input
      in if skipped = [] then (None, False, [])
         else (let (negative, unsigned) = split_sign skipped;
                   ds = takeWhile isdigit unsigned;
                   rest = dropWhile isdigit unsigned;
                   v = (if negative then - int (digits_value ds) else int (digits_value ds))
               in if ds = [] then (Some 0, False, unsigned)
                  else if v < - (2 ^ 31) then (Some (- (2 ^ 31)), False, rest)
                  else if 2 ^ 31 \<le> v then (Some (2 ^ 31 - 1), False, rest)
                  else (Some v, rest \<noteq> [], rest)))"

text \<open>\<open>loadMetadata\<close>: the first line, then two \<^verbatim>\<open>int\<close>s.  The two \<^verbatim>\<open>int\<close> variables are
  declared without a value, so a result that carries one of them unwritten is
  \<open>Indeterminate_value\<close>.\<close>

definition loadMetadata :: "peer \<Rightarrow> string \<Rightarrow> (error + string \<times> int \<times> int) \<times> peer" where
  "loadMetadata s file_name =
     (let metadata_path = BASE_PATH @ file_name @ ''.p2p''
      in case files s metadata_path of
           None \<Rightarrow>
             (Inr ([], - 1, - 1),
              logMessage s ERROR
                (''Erro ao abrir o arquivo de metadados para '' @ file_name
                 @ ''. Verifique se o arquivo de metadados '' @ file_name
                 @ ''.p2p se encontra em '' @ BASE_PATH))
         | Some content \<Rightarrow>
             (let file_name_returned = takeWhile (\<lambda>c. c \<noteq> CHR 0x0A) content;
                  after_line = drop (length file_name_returned + 1) content;
                  (total_chunks, good, after_total) =
                     (if content = [] then (None, False, []) else extract_int after_line);
                  (initial_ttl, good', after_ttl) =
                     (if good then extract_int after_total else (None, False, after_total))
              in case (total_chunks, initial_ttl) of
                   (Some chunks_read, Some ttl_read) \<Rightarrow>
                     (Inr (file_name_returned, chunks_read, ttl_read), s)
                 | _ \<Rightarrow> (Inl Indeterminate_value, s)))"

definition discoverAndRequestChunks ::
  "(ChunkLocationInfo list \<Rightarrow> ChunkLocationInfo list) \<Rightarrow> peer \<Rightarrow> string \<Rightarrow> int \<Rightarrow> int
     \<Rightarrow> error + peer" where
  "discoverAndRequestChunks srt s file_name total_chunks initial_ttl =
     (let s1 = initializeProcessingActive s file_name;
          (assembler, s2) = assembleFile s1 file_name
      in if \<not> assembler then
           (let s3 = sendChunkDiscoveryMessage s2 file_name total_chunks initial_ttl (srv_ip s2)
                       (srv_port s2);
                s4 = waitForResponses s3 file_name
            in sendChunkRequestMessage srt s4 file_name)
         else Inr (logMessage s2 INFO
                     (''O peer '' @ peer_id s2 @ '' ('' @ srv_ip s2 @ '':'' @ to_string (srv_port s2)
                      @ '') ja possui todos os chunks para '' @ file_name @ ''.'')))"

definition searchFile ::
  "(ChunkLocationInfo list \<Rightarrow> ChunkLocationInfo list) \<Rightarrow> peer \<Rightarrow> string \<Rightarrow> error + peer" where
  "searchFile srt s file_name =
     (case loadMetadata s file_name of
        (Inl e, s1) \<Rightarrow> Inl e
      | (Inr (file_name_returned, total_chunks, initial_ttl), s1) \<Rightarrow>
          if total_chunks \<noteq> - 1 \<and> initial_ttl \<noteq> - 1 then
            (case initializeChunkLocationInfo
                    (initializeFileChunks s1 file_name_returned total_chunks) file_name_returned of
               Inl e \<Rightarrow> Inl e
             | Inr s2 \<Rightarrow> discoverAndRequestChunks srt s2 file_name_returned total_chunks initial_ttl)
          else Inr s1)"

subsection \<open>Notions used in the statements\<close>

text \<open>The endpoint of a provider record; the discovery table holds no provider twice
  for a chunk; the values of a C++ \<^verbatim>\<open>int\<close>.\<close>

definition endpoint :: "ChunkLocationInfo \<Rightarrow> string \<times> int" where
  "endpoint p = (ip p, port p)"

definition no_duplicate_providers :: "peer \<Rightarrow> bool" where
  "no_duplicate_providers s =
     (\<forall>file_name table. chunk_location_info s file_name = Some table \<longrightarrow>
        (\<forall>providers \<in> set table. distinct (map endpoint providers)))"

definition is_int32 :: "int \<Rightarrow> bool" where
  "is_int32 i = (- (2 ^ 31) \<le> i \<and> i < 2 ^ 31)"

text \<open>The trace that hands each block to \<^verbatim>\<open>send\<close> and sleeps one second after it.\<close>

definition paced_trace :: "string list \<Rightarrow> tcp_event list" where
  "paced_trace blocks = concat (map (\<lambda>block. [Send block, Sleep_1s]) blocks)"

subsection \<open>Concrete peers\<close>

definition example_peer :: peer where
  "example_peer =
     \<lparr>srv_ip = ''10.0.0.1'', srv_port = 5001, srv_tcp_port = 6001, srv_transfer_speed = 64,
      udpNeighbors = [(''10.0.0.2'', 5002), (''10.0.0.3'', 5003)],
      peer_id = ''1'', directory = ''./src/1'',
      local_chunks = (\<lambda>_. {}), local_chunks_mutex = {}, file_chunks = (\<lambda>_. 0),
      chunk_location_info = Map.empty, chunk_location_info_mutex = {},
      processing_active_map = (\<lambda>_. False),
      files = Map.empty, writable = (\<lambda>_. True), sendto_ok = (\<lambda>_ _. True),
      connect_ok = (\<lambda>_ _. True), udp_sent = [], tcp_sent = [], log = []\<rparr>"

definition provider_A :: ChunkLocationInfo where
  "provider_A = \<lparr>ip = ''10.0.0.2'', port = 5002, transfer_speed = 100\<rparr>"

definition provider_B :: ChunkLocationInfo where
  "provider_B = \<lparr>ip = ''10.0.0.3'', port = 5003, transfer_speed = 50\<rparr>"

text \<open>A peer that holds both chunks of a two-chunk file, the first of them empty;
  a peer whose sidecar for \<open>book.txt\<close> opens and has a word where the TTL should
  be.\<close>

definition empty_chunk_peer :: peer where
  "empty_chunk_peer =
     example_peer
       \<lparr>local_chunks := (\<lambda>_. {})(''book.txt'' := {0, 1}),
        file_chunks := (\<lambda>_. 0)(''book.txt'' := 2),
        chunk_location_info := [''book.txt'' \<mapsto> [[], []]],
        chunk_location_info_mutex := {''book.txt''},
        files := [''./src/1/book.txt.ch0'' \<mapsto> [], ''./src/1/book.txt.ch1'' \<mapsto> ''x'']\<rparr>"

definition malformed_metadata_peer :: peer where
  "malformed_metadata_peer =
     example_peer\<lparr>files := [''./src/book.txt.p2p'' \<mapsto> ''book.txt'' @ [CHR 0x0A] @ ''3 x'']\<rparr>"

text \<open>A peer whose discovery table for the one chunk of \<open>book.txt\<close> holds the
  providers A (rate 100) and B (rate 50).\<close>

definition unselected_provider_peer :: peer where
  "unselected_provider_peer =
     example_peer\<lparr>chunk_location_info := [''book.txt'' \<mapsto> [[provider_A, provider_B]]]\<rparr>"

text \<open>A peer with rate 1000000000 and a file in nested directories whose name has
  1003 bytes: the control header of its chunk 0, of 256 bytes, has 1024 bytes.\<close>

definition long_header_peer :: peer where
  "long_header_peer = example_peer\<lparr>srv_transfer_speed := 1000000000\<rparr>"

definition long_file_name :: string where
  "long_file_name =
     replicate 200 (CHR ''d'') @ ''/'' @ replicate 200 (CHR ''d'') @ ''/''
     @ replicate 200 (CHR ''d'') @ ''/'' @ replicate 200 (CHR ''d'') @ ''/''
     @ replicate 199 (CHR ''f'')"

section \<open>The chunk store\<close>

lemma ofstream_open_closed [simp]: "\<not> writable s p \<Longrightarrow> ofstream_open s p = (s, False)"
  by (simp add: ofstream_open_def)

text \<open>
  Claim C10.  When \<open>saveChunk\<close> cannot open the chunk artifact for writing it returns
  with the local chunk set, the disk and the discovery table as they were: the chunk
  is not inserted and no assembly is attempted (only the error is logged, and the
  mutex of the file exists).  The chunk is inserted, and assembly attempted on the
  store that holds it, only when the artifact was opened and written.
\<close>

theorem saveChunk_open_failure:
  "(\<not> writable s (getChunkPath s f i) \<longrightarrow>
      saveChunk s f i bytes =
        s\<lparr>local_chunks_mutex := insert f (local_chunks_mutex s),
          log := log s @
            [(ERROR, ''Nao foi possivel criar o arquivo para o chunk '' @ to_string i)]\<rparr>
      \<and> local_chunks (saveChunk s f i bytes) = local_chunks s
      \<and> files (saveChunk s f i bytes) = files s
      \<and> chunk_location_info (saveChunk s f i bytes) = chunk_location_info s)
   \<and> (writable s (getChunkPath s f i) \<longrightarrow>
      saveChunk s f i bytes =
        snd (assembleFile
               (s\<lparr>local_chunks_mutex := insert f (local_chunks_mutex s),
                  files := (files s)(getChunkPath s f i \<mapsto> bytes),
                  local_chunks := (local_chunks s)(f := insert i (local_chunks s f))\<rparr>) f))"
  by (simp add: saveChunk_def getChunkPath_def ofstream_open_def logMessage_def Let_def)

lemma example_peer_simps [simp]:
  "srv_ip example_peer = ''10.0.0.1''" "srv_port example_peer = 5001"
  "srv_tcp_port example_peer = 6001" "srv_transfer_speed example_peer = 64"
  "udpNeighbors example_peer = [(''10.0.0.2'', 5002), (''10.0.0.3'', 5003)]"
  "peer_id example_peer = ''1''" "directory example_peer = ''./src/1''"
  "local_chunks example_peer = (\<lambda>_. {})" "local_chunks_mutex example_peer = {}"
  "file_chunks example_peer = (\<lambda>_. 0)" "chunk_location_info example_peer = Map.empty"
  "chunk_location_info_mutex example_peer = {}"
  "processing_active_map example_peer = (\<lambda>_. False)" "files example_peer = Map.empty"
  "writable example_peer = (\<lambda>_. True)" "sendto_ok example_peer = (\<lambda>_ _. True)"
  "connect_ok example_peer = (\<lambda>_ _. True)" "udp_sent example_peer = []"
  "tcp_sent example_peer = []" "log example_peer = []"
  by (simp_all add: example_peer_def)

lemma to_string_digit [simp]:
  "to_string 0 = ''0''" "to_string 1 = ''1''" "to_string 2 = ''2''" "to_string 3 = ''3''"
  by (simp_all add: to_string_def digits.simps)

theorem saveChunk_open_failure_witness:
  "\<not> writable (example_peer\<lparr>writable := \<lambda>_. False\<rparr>)
       (getChunkPath (example_peer\<lparr>writable := \<lambda>_. False\<rparr>) ''book.txt'' 0)
   \<and> local_chunks (saveChunk (example_peer\<lparr>writable := \<lambda>_. False\<rparr>) ''book.txt'' 0 ''abc'')
        ''book.txt'' = {}
   \<and> files (saveChunk (example_peer\<lparr>writable := \<lambda>_. False\<rparr>) ''book.txt'' 0 ''abc'')
        ''./src/1/book.txt.ch0'' = None
   \<and> writable example_peer (getChunkPath example_peer ''book.txt'' 0)
   \<and> local_chunks (saveChunk example_peer ''book.txt'' 0 ''abc'') ''book.txt'' = {0}
   \<and> files (saveChunk example_peer ''book.txt'' 0 ''abc'') ''./src/1/book.txt.ch0'' = Some ''abc''"
proof -
  let ?closed = "example_peer\<lparr>writable := \<lambda>_. False\<rparr>"
  have c: "\<not> writable ?closed (getChunkPath ?closed ''book.txt'' 0)"
    by simp
  have w: "writable example_peer (getChunkPath example_peer ''book.txt'' 0)"
    by simp
  from c saveChunk_open_failure [of ?closed "''book.txt''" 0 "''abc''"]
  have "local_chunks (saveChunk ?closed ''book.txt'' 0 ''abc'') = local_chunks ?closed"
    and "files (saveChunk ?closed ''book.txt'' 0 ''abc'') = files ?closed"
    by blast+
  moreover from w saveChunk_open_failure [of example_peer "''book.txt''" 0 "''abc''"]
  have "saveChunk example_peer ''book.txt'' 0 ''abc'' =
        snd (assembleFile
               (example_peer\<lparr>local_chunks_mutex := insert ''book.txt'' (local_chunks_mutex example_peer),
                  files := (files example_peer)(getChunkPath example_peer ''book.txt'' 0 \<mapsto> ''abc''),
                  local_chunks := (local_chunks example_peer)
                     (''book.txt'' := insert 0 (local_chunks example_peer ''book.txt''))\<rparr>) ''book.txt'')"
    by blast
  ultimately show ?thesis
    using c w by (simp add: assembleFile_def static_cast_size_t_def getChunkPath_def)
qed

section \<open>The control plane\<close>

lemma logMessage_fields [simp]:
  "srv_ip (logMessage s t m) = srv_ip s" "srv_port (logMessage s t m) = srv_port s"
  "srv_tcp_port (logMessage s t m) = srv_tcp_port s"
  "srv_transfer_speed (logMessage s t m) = srv_transfer_speed s"
  "udpNeighbors (logMessage s t m) = udpNeighbors s"
  "peer_id (logMessage s t m) = peer_id s" "directory (logMessage s t m) = directory s"
  "local_chunks (logMessage s t m) = local_chunks s"
  "local_chunks_mutex (logMessage s t m) = local_chunks_mutex s"
  "file_chunks (logMessage s t m) = file_chunks s"
  "chunk_location_info (logMessage s t m) = chunk_location_info s"
  "chunk_location_info_mutex (logMessage s t m) = chunk_location_info_mutex s"
  "processing_active_map (logMessage s t m) = processing_active_map s"
  "files (logMessage s t m) = files s" "writable (logMessage s t m) = writable s"
  "sendto_ok (logMessage s t m) = sendto_ok s" "connect_ok (logMessage s t m) = connect_ok s"
  "udp_sent (logMessage s t m) = udp_sent s" "tcp_sent (logMessage s t m) = tcp_sent s"
  "log (logMessage s t m) = log s @ [(t, m)]"
  by (simp_all add: logMessage_def)

lemma discovery_loop_udp_sent:
  "udp_sent (discovery_loop s message neighbors) =
     udp_sent s @ map (\<lambda>(neighbor_ip, neighbor_port). (neighbor_ip, neighbor_port, message)) neighbors"
  by (induction s message neighbors rule: discovery_loop.induct)
     (simp_all add: sendUDPMessage_def)

lemma sendChunkResponseMessage_udp_sent:
  "finite (local_chunks s f) \<Longrightarrow>
   udp_sent (sendChunkResponseMessage s f rip rport) =
     udp_sent s @
     (if local_chunks s f \<noteq> {}
      then [(rip, rport, buildChunkResponseMessage s f (sorted_list_of_set (local_chunks s f)))]
      else [])"
  by (simp add: sendChunkResponseMessage_def getAvailableChunks_def sendUDPMessage_def
      buildChunkResponseMessage_def Let_def)

lemma sendChunkResponseMessage_udpNeighbors [simp]:
  "udpNeighbors (sendChunkResponseMessage s f rip rport) = udpNeighbors s"
  by (simp add: sendChunkResponseMessage_def getAvailableChunks_def sendUDPMessage_def Let_def)

text \<open>
  Claim C3.  A DISCOVERY whose origin is not the receiving peer's own endpoint makes
  the peer call \<^verbatim>\<open>sendto\<close> as follows and not otherwise: first, exactly when it holds
  a chunk of the file, one RESPONSE to the origin that lists the chunks it holds (in
  increasing order) after its own advertised rate; then, exactly when the received
  TTL is positive, the DISCOVERY to every neighbour in turn, with the TTL less one and
  the file, the chunk count and the origin as received.  With a TTL of zero the
  message is answered and not forwarded.
\<close>

theorem discovery_from_other_peer:
  assumes "origin_ip \<noteq> srv_ip s \<or> origin_port \<noteq> srv_port s"
    and "finite (local_chunks s f)"
  shows "\<exists>s'. processMessage s (DISCOVERY f total_chunks ttl origin_ip origin_port)
                sender_ip sender_port = Inr s'
          \<and> udp_sent s' =
              udp_sent s
              @ (if local_chunks s f \<noteq> {}
                 then [(origin_ip, origin_port,
                        ''RESPONSE '' @ f @ '' '' @ to_string (srv_transfer_speed s) @ '' ''
                        @ concat (map (\<lambda>chunk. to_string chunk @ '' '')
                                    (sorted_list_of_set (local_chunks s f))))]
                 else [])
              @ (if ttl > 0
                 then map (\<lambda>(neighbor_ip, neighbor_port).
                             (neighbor_ip, neighbor_port,
                              ''DISCOVERY '' @ f @ '' '' @ to_string total_chunks @ '' ''
                              @ to_string (ttl - 1) @ '' '' @ origin_ip @ '':''
                              @ to_string origin_port))
                        (udpNeighbors s)
                 else [])"
  using assms
  by (simp add: processMessage_def processChunkDiscoveryMessage_def Let_def
      sendChunkDiscoveryMessage_def discovery_loop_udp_sent sendChunkResponseMessage_udp_sent
      buildChunkResponseMessage_def buildChunkDiscoveryMessage_def)

lemma to_string_examples [simp]:
  "to_string 64 = ''64''" "to_string 5009 = ''5009''" "to_string 100 = ''100''"
  "to_string 5001 = ''5001''" "to_string 5002 = ''5002''" "to_string 5003 = ''5003''"
  "to_string 5 = ''5''" "to_string (- 1) = ''-1''" "to_string 256 = ''256''"
  "to_string 6001 = ''6001''"
  by (simp_all add: to_string_def digits.simps)

lemma sorted_list_of_set_01 [simp]: "sorted_list_of_set {0, 1 :: int} = [0, 1]"
  by simp

theorem discovery_from_other_peer_witness:
  "''10.0.0.9'' \<noteq> srv_ip (example_peer\<lparr>local_chunks := (\<lambda>_. {})(''book.txt'' := {0, 1})\<rparr>)
   \<and> finite (local_chunks (example_peer\<lparr>local_chunks := (\<lambda>_. {})(''book.txt'' := {0, 1})\<rparr>)
               ''book.txt'')
   \<and> (\<exists>s'. processMessage (example_peer\<lparr>local_chunks := (\<lambda>_. {})(''book.txt'' := {0, 1})\<rparr>)
               (DISCOVERY ''book.txt'' 2 1 ''10.0.0.9'' 5009) ''10.0.0.2'' 5002 = Inr s'
          \<and> udp_sent s' =
              [(''10.0.0.9'', 5009, ''RESPONSE book.txt 64 0 1 ''),
               (''10.0.0.2'', 5002, ''DISCOVERY book.txt 2 0 10.0.0.9:5009''),
               (''10.0.0.3'', 5003, ''DISCOVERY book.txt 2 0 10.0.0.9:5009'')])
   \<and> (\<exists>s'. processMessage (example_peer\<lparr>local_chunks := (\<lambda>_. {})(''book.txt'' := {0, 1})\<rparr>)
               (DISCOVERY ''book.txt'' 2 0 ''10.0.0.9'' 5009) ''10.0.0.2'' 5002 = Inr s'
          \<and> udp_sent s' = [(''10.0.0.9'', 5009, ''RESPONSE book.txt 64 0 1 '')])"
proof -
  let ?s = "example_peer\<lparr>local_chunks := (\<lambda>_. {})(''book.txt'' := {0, 1})\<rparr>"
  have other: "''10.0.0.9'' \<noteq> srv_ip ?s \<or> 5009 \<noteq> srv_port ?s"
    by simp
  have fin: "finite (local_chunks ?s ''book.txt'')"
    by simp
  show ?thesis
    using discovery_from_other_peer [OF other fin, of 2 1 "''10.0.0.2''" 5002]
      discovery_from_other_peer [OF other fin, of 2 0 "''10.0.0.2''" 5002]
    by simp
qed

text \<open>
  Claim C4.  A DISCOVERY whose origin is the receiving peer's own endpoint changes
  nothing, whatever its TTL and whatever the peer holds: no datagram is sent (no
  RESPONSE, no DISCOVERY to a neighbour) and nothing is logged.
\<close>

theorem discovery_from_self_dropped:
  assumes "origin_ip = srv_ip s" and "origin_port = srv_port s"
  shows "processMessage s (DISCOVERY f total_chunks ttl origin_ip origin_port) sender_ip sender_port
         = Inr s"
  using assms by (simp add: processMessage_def processChunkDiscoveryMessage_def)

theorem discovery_from_self_dropped_witness:
  "''10.0.0.1'' = srv_ip (example_peer\<lparr>local_chunks := (\<lambda>_. {})(''book.txt'' := {0, 1})\<rparr>)
   \<and> 5001 = srv_port (example_peer\<lparr>local_chunks := (\<lambda>_. {})(''book.txt'' := {0, 1})\<rparr>)
   \<and> processMessage (example_peer\<lparr>local_chunks := (\<lambda>_. {})(''book.txt'' := {0, 1})\<rparr>)
        (DISCOVERY ''book.txt'' 2 3 ''10.0.0.1'' 5001) ''10.0.0.2'' 5002
      = Inr (example_peer\<lparr>local_chunks := (\<lambda>_. {})(''book.txt'' := {0, 1})\<rparr>)
   \<and> udp_sent (example_peer\<lparr>local_chunks := (\<lambda>_. {})(''book.txt'' := {0, 1})\<rparr>) = []"
  using discovery_from_self_dropped
    [of "''10.0.0.1''" "example_peer\<lparr>local_chunks := (\<lambda>_. {})(''book.txt'' := {0, 1})\<rparr>"
      5001 "''book.txt''" 2 3 "''10.0.0.2''" 5002]
  by simp

text \<open>
  Claim C5.  A RESPONSE for a file whose response window is not open is dropped: the
  handler only logs that processing is off, and the discovery table (of every file)
  is as before, so no provider is recorded for any chunk.  The window is not open
  once \<open>waitForResponses\<close> has returned.
\<close>

theorem response_outside_window_dropped:
  "(\<not> processing_active_map s f \<longrightarrow>
      (\<exists>s'. processMessage s (RESPONSE f speed chunks) sender_ip sender_port = Inr s'
         \<and> chunk_location_info s' = chunk_location_info s
         \<and> udp_sent s' = udp_sent s
         \<and> log s' = log s @ [(OTHER, ''Mensagem RESPONSE recebida para '' @ f
                                       @ '', mas o processamento esta desativado.'')]))
   \<and> \<not> processing_active_map (waitForResponses s f) f
   \<and> (\<exists>s'. processMessage (waitForResponses s f) (RESPONSE f speed chunks) sender_ip sender_port
             = Inr s'
         \<and> chunk_location_info s' = chunk_location_info s)"
  by (simp add: processMessage_def waitForResponses_def)

theorem response_outside_window_dropped_witness:
  "\<not> processing_active_map (example_peer\<lparr>chunk_location_info := [''book.txt'' \<mapsto> [[], []]]\<rparr>)
       ''book.txt''
   \<and> (\<exists>s'. processMessage (example_peer\<lparr>chunk_location_info := [''book.txt'' \<mapsto> [[], []]]\<rparr>)
              (RESPONSE ''book.txt'' 100 [0, 1]) ''10.0.0.2'' 5002 = Inr s'
         \<and> chunk_location_info s' ''book.txt'' = Some [[], []])"
  using response_outside_window_dropped
    [of "example_peer\<lparr>chunk_location_info := [''book.txt'' \<mapsto> [[], []]]\<rparr>" "''book.txt''" 100
      "[0, 1]" "''10.0.0.2''" 5002]
  by auto

section \<open>The discovery table\<close>

lemma static_cast_size_t_in_range:
  assumes "is_int32 i" and "n < 2 ^ 31"
  shows "static_cast_size_t i < n \<longleftrightarrow> 0 \<le> i \<and> i < int n"
proof (cases "0 \<le> i")
  case True
  with assms have "i mod 2 ^ 64 = i"
    by (simp add: is_int32_def)
  with True show ?thesis
    by (auto simp: static_cast_size_t_def)
next
  case False
  have "i mod 2 ^ 64 = (i + 2 ^ 64) mod 2 ^ 64"
    by simp
  also have "\<dots> = i + 2 ^ 64"
    using False assms by (intro mod_pos_pos_trivial) (simp_all add: is_int32_def)
  finally have "i mod 2 ^ 64 = i + 2 ^ 64" .
  with False assms show ?thesis
    by (auto simp: static_cast_size_t_def is_int32_def)
qed

lemma static_cast_size_t_nat:
  "0 \<le> i \<Longrightarrow> is_int32 i \<Longrightarrow> static_cast_size_t i = nat i"
  by (simp add: static_cast_size_t_def is_int32_def)

lemma store_chunk_id_in_range:
  assumes "chunk_location_info s f = Some table" and "length table = n" and "n < 2 ^ 31"
    and "is_int32 i" and "0 \<le> i \<and> i < int n"
  shows "store_chunk_id f sip sport speed s i =
         (if (sip, sport) \<in> set (map endpoint (table ! nat i)) then s
          else s\<lparr>chunk_location_info := (chunk_location_info s)
                  (f \<mapsto> table[nat i := table ! nat i @
                        [\<lparr>ip = sip, port = sport, transfer_speed = speed\<rparr>]])\<rparr>)"
proof -
  have a: "static_cast_size_t i < length table"
    using assms by (simp add: static_cast_size_t_in_range)
  have b: "static_cast_size_t i = nat i"
    using assms by (simp add: static_cast_size_t_nat)
  have c: "list_ex (\<lambda>cli. ip cli = sip \<and> port cli = sport) xs \<longleftrightarrow> (sip, sport) \<in> set (map endpoint xs)" for xs
    by (auto simp: list_ex_iff endpoint_def)
  have d: "s\<lparr>chunk_location_info := (chunk_location_info s)(f \<mapsto> table)\<rparr> = s"
    using assms(1) by (simp add: fun_upd_idem)
  show ?thesis
    using a assms(1) by (simp add: store_chunk_id_def Let_def b c d del: set_map)
qed

lemma store_chunk_id_out_of_range:
  assumes "chunk_location_info s f = Some table" and "length table = n" and "n < 2 ^ 31"
    and "is_int32 i" and "\<not> (0 \<le> i \<and> i < int n)"
  shows "store_chunk_id f sip sport speed s i = logMessage s ERROR (out_of_range_text f i)"
proof -
  have a: "\<not> static_cast_size_t i < length table"
    using assms by (simp add: static_cast_size_t_in_range)
  have d: "s\<lparr>chunk_location_info := (chunk_location_info s)(f \<mapsto> table)\<rparr> = s"
    using assms(1) by (simp add: fun_upd_idem)
  show ?thesis
    using a assms(1) by (simp add: store_chunk_id_def Let_def d)
qed


lemma store_chunk_id_no_duplicates:
  assumes "no_duplicate_providers s"
  shows "no_duplicate_providers (store_chunk_id f sip sport speed s i)"
proof -
  define table where "table = (case chunk_location_info s f of None \<Rightarrow> [] | Some t \<Rightarrow> t)"
  have table: "\<forall>providers \<in> set table. distinct (map endpoint providers)"
  proof (cases "chunk_location_info s f")
    case None
    then show ?thesis by (simp add: table_def)
  next
    case (Some t)
    with assms show ?thesis by (simp add: table_def no_duplicate_providers_def)
  qed
  have other: "\<And>g t. g \<noteq> f \<Longrightarrow> chunk_location_info s g = Some t \<Longrightarrow>
      \<forall>providers \<in> set t. distinct (map endpoint providers)"
    using assms by (auto simp: no_duplicate_providers_def)
  have upd: "\<forall>providers \<in> set (table[k := table ! k @ [\<lparr>ip = sip, port = sport, transfer_speed = speed\<rparr>]]).
               distinct (map endpoint providers)"
    if "k < length table" and "\<not> list_ex (\<lambda>cli. ip cli = sip \<and> port cli = sport) (table ! k)" for k
  proof
    fix providers
    assume "providers \<in> set (table[k := table ! k @ [\<lparr>ip = sip, port = sport, transfer_speed = speed\<rparr>]])"
    then have "providers = table ! k @ [\<lparr>ip = sip, port = sport, transfer_speed = speed\<rparr>]
               \<or> providers \<in> set table"
      using set_update_subset_insert by fastforce
    moreover have "distinct (map endpoint (table ! k))"
      using table that(1) by simp
    moreover have "(sip, sport) \<notin> set (map endpoint (table ! k))"
      using that(2) by (auto simp: list_ex_iff endpoint_def)
    ultimately show "distinct (map endpoint providers)"
      using table by (auto simp: endpoint_def)
  qed
  show ?thesis
    unfolding no_duplicate_providers_def
    using table other upd
    by (auto simp: store_chunk_id_def Let_def table_def [symmetric] split: if_splits)
qed

lemma store_loop_no_duplicates:
  "no_duplicate_providers s \<Longrightarrow> no_duplicate_providers (store_loop f sip sport speed s ids)"
  by (induction ids arbitrary: s) (simp_all add: store_chunk_id_no_duplicates)

lemma storeChunkLocationInfo_no_duplicates:
  assumes "no_duplicate_providers s"
  shows "no_duplicate_providers (storeChunkLocationInfo s f ids sip sport speed)"
proof -
  have "no_duplicate_providers
          (s\<lparr>chunk_location_info_mutex := insert f (chunk_location_info_mutex s)\<rparr>)"
    using assms by (simp add: no_duplicate_providers_def)
  then show ?thesis
    by (simp add: storeChunkLocationInfo_def store_loop_no_duplicates)
qed


lemma store_chunk_id_cong:
  "chunk_location_info s1 = chunk_location_info s2 \<Longrightarrow>
   chunk_location_info (store_chunk_id f sip sport speed s1 i) =
   chunk_location_info (store_chunk_id f sip sport speed s2 i)"
  by (simp add: store_chunk_id_def Let_def)

lemma store_loop_cong:
  "chunk_location_info s1 = chunk_location_info s2 \<Longrightarrow>
   chunk_location_info (store_loop f sip sport speed s1 ids) =
   chunk_location_info (store_loop f sip sport speed s2 ids)"
proof (induction ids arbitrary: s1 s2)
  case Nil
  then show ?case by simp
next
  case (Cons i ids)
  show ?case
    using Cons.IH [OF store_chunk_id_cong [OF Cons.prems]] by simp
qed

lemma store_chunk_id_step:
  assumes "chunk_location_info s f = Some table" and "length table = n" and "n < 2 ^ 31"
    and "is_int32 i"
  shows "\<exists>table1. chunk_location_info (store_chunk_id f sip sport speed s i) f = Some table1
           \<and> length table1 = n
           \<and> (\<forall>j<n. set (map endpoint (table ! j)) \<subseteq> set (map endpoint (table1 ! j)))
           \<and> ((0 \<le> i \<and> i < int n) \<longrightarrow> (sip, sport) \<in> set (map endpoint (table1 ! nat i)))"
proof (cases "0 \<le> i \<and> i < int n")
  case True
  then have eq: "store_chunk_id f sip sport speed s i =
         (if (sip, sport) \<in> set (map endpoint (table ! nat i)) then s
          else s\<lparr>chunk_location_info := (chunk_location_info s)
                  (f \<mapsto> table[nat i := table ! nat i @
                        [\<lparr>ip = sip, port = sport, transfer_speed = speed\<rparr>]])\<rparr>)"
    using assms by (intro store_chunk_id_in_range)
  show ?thesis
  proof (cases "(sip, sport) \<in> set (map endpoint (table ! nat i))")
    case present: True
    with eq assms True show ?thesis by simp
  next
    case False
    have "nat i < length table"
      using True assms by (simp add: nat_less_iff)
    then show ?thesis
      using eq False assms
      by (auto simp: nth_list_update endpoint_def)
  qed
next
  case False
  then have "store_chunk_id f sip sport speed s i = logMessage s ERROR (out_of_range_text f i)"
    using assms by (intro store_chunk_id_out_of_range)
  with False assms show ?thesis by auto
qed

lemma store_chunk_id_log:
  assumes "chunk_location_info s f = Some table" and "length table = n" and "n < 2 ^ 31"
    and "is_int32 i"
  shows "log (store_chunk_id f sip sport speed s i) =
         log s @ (if 0 \<le> i \<and> i < int n then [] else [(ERROR, out_of_range_text f i)])"
proof (cases "0 \<le> i \<and> i < int n")
  case True
  then have "store_chunk_id f sip sport speed s i =
         (if (sip, sport) \<in> set (map endpoint (table ! nat i)) then s
          else s\<lparr>chunk_location_info := (chunk_location_info s)
                  (f \<mapsto> table[nat i := table ! nat i @
                        [\<lparr>ip = sip, port = sport, transfer_speed = speed\<rparr>]])\<rparr>)"
    using assms by (intro store_chunk_id_in_range)
  with True show ?thesis by simp
next
  case False
  then have "store_chunk_id f sip sport speed s i = logMessage s ERROR (out_of_range_text f i)"
    using assms by (intro store_chunk_id_out_of_range)
  with False show ?thesis by simp
qed

lemma store_loop_log:
  assumes "chunk_location_info s f = Some table" and "length table = n" and "n < 2 ^ 31"
    and "\<forall>i \<in> set ids. is_int32 i"
  shows "log (store_loop f sip sport speed s ids) =
         log s @ map (\<lambda>i. (ERROR, out_of_range_text f i))
                   (filter (\<lambda>i. \<not> (0 \<le> i \<and> i < int n)) ids)"
  using assms
proof (induction ids arbitrary: s table)
  case Nil
  then show ?case by simp
next
  case (Cons i ids)
  from Cons.prems have i: "is_int32 i" by simp
  from store_chunk_id_step [OF Cons.prems(1-3) i, of sip sport speed]
  obtain table1 where t1: "chunk_location_info (store_chunk_id f sip sport speed s i) f = Some table1"
    "length table1 = n" by blast
  have "log (store_loop f sip sport speed (store_chunk_id f sip sport speed s i) ids) =
        log (store_chunk_id f sip sport speed s i)
        @ map (\<lambda>i. (ERROR, out_of_range_text f i)) (filter (\<lambda>i. \<not> (0 \<le> i \<and> i < int n)) ids)"
    using Cons.prems by (intro Cons.IH [OF t1]) simp_all
  then show ?case
    using store_chunk_id_log [OF Cons.prems(1-3) i, of sip sport speed] by simp
qed

lemma store_loop_filter:
  assumes "chunk_location_info s f = Some table" and "length table = n" and "n < 2 ^ 31"
    and "\<forall>i \<in> set ids. is_int32 i"
  shows "chunk_location_info (store_loop f sip sport speed s ids) =
         chunk_location_info
           (store_loop f sip sport speed s (filter (\<lambda>i. 0 \<le> i \<and> i < int n) ids))"
  using assms
proof (induction ids arbitrary: s table)
  case Nil
  then show ?case by simp
next
  case (Cons i ids)
  from Cons.prems have i: "is_int32 i" by simp
  from store_chunk_id_step [OF Cons.prems(1-3) i, of sip sport speed]
  obtain table1 where t1: "chunk_location_info (store_chunk_id f sip sport speed s i) f = Some table1"
    "length table1 = n" by blast
  have IH: "chunk_location_info (store_loop f sip sport speed (store_chunk_id f sip sport speed s i) ids) =
        chunk_location_info (store_loop f sip sport speed (store_chunk_id f sip sport speed s i)
           (filter (\<lambda>i. 0 \<le> i \<and> i < int n) ids))"
    using Cons.prems by (intro Cons.IH [OF t1]) simp_all
  show ?case
  proof (cases "0 \<le> i \<and> i < int n")
    case True
    with IH show ?thesis by simp
  next
    case False
    then have "store_chunk_id f sip sport speed s i = logMessage s ERROR (out_of_range_text f i)"
      using Cons.prems(1-3) i by (intro store_chunk_id_out_of_range)
    then have "chunk_location_info (store_chunk_id f sip sport speed s i) = chunk_location_info s"
      by simp
    from store_loop_cong [OF this] IH False show ?thesis by simp
  qed
qed

lemma store_loop_recorded:
  assumes "chunk_location_info s f = Some table" and "length table = n" and "n < 2 ^ 31"
    and "\<forall>i \<in> set ids. is_int32 i"
  shows "\<exists>table'. chunk_location_info (store_loop f sip sport speed s ids) f = Some table'
           \<and> length table' = n
           \<and> (\<forall>j<n. set (map endpoint (table ! j)) \<subseteq> set (map endpoint (table' ! j)))
           \<and> (\<forall>i \<in> set ids. 0 \<le> i \<and> i < int n \<longrightarrow>
                  (sip, sport) \<in> set (map endpoint (table' ! nat i)))"
  using assms
proof (induction ids arbitrary: s table)
  case Nil
  then show ?case by simp
next
  case (Cons i ids)
  from Cons.prems have i: "is_int32 i" by simp
  from store_chunk_id_step [OF Cons.prems(1-3) i, of sip sport speed]
  obtain table1 where t1: "chunk_location_info (store_chunk_id f sip sport speed s i) f = Some table1"
    "length table1 = n"
    and mono1: "\<forall>j<n. set (map endpoint (table ! j)) \<subseteq> set (map endpoint (table1 ! j))"
    and rec1: "(0 \<le> i \<and> i < int n) \<longrightarrow> (sip, sport) \<in> set (map endpoint (table1 ! nat i))"
    by blast
  from Cons.IH [OF t1 Cons.prems(3)] Cons.prems(4)
  obtain table' where t': "chunk_location_info
        (store_loop f sip sport speed (store_chunk_id f sip sport speed s i) ids) f = Some table'"
    "length table' = n"
    and mono': "\<forall>j<n. set (map endpoint (table1 ! j)) \<subseteq> set (map endpoint (table' ! j))"
    and rec': "\<forall>i \<in> set ids. 0 \<le> i \<and> i < int n \<longrightarrow>
                  (sip, sport) \<in> set (map endpoint (table' ! nat i))"
    by auto
  have "\<forall>j<n. set (map endpoint (table ! j)) \<subseteq> set (map endpoint (table' ! j))"
    using mono1 mono' by blast
  moreover have "(0 \<le> i \<and> i < int n) \<longrightarrow> (sip, sport) \<in> set (map endpoint (table' ! nat i))"
  proof
    assume r: "0 \<le> i \<and> i < int n"
    then have "nat i < n" by (simp add: nat_less_iff)
    with mono' rec1 r show "(sip, sport) \<in> set (map endpoint (table' ! nat i))" by blast
  qed
  ultimately show ?case
    using t' rec' by simp
qed

text \<open>
  Claim C6.  A call of \<open>storeChunkLocationInfo\<close> keeps the table free of duplicate
  providers: if no chunk of any file listed an endpoint twice before, none does
  after.  For a file that has a table, and chunk ids that are C++ \<^verbatim>\<open>int\<close>s: the table
  after the call is the table after the call with the ids in \<open>[0, total_chunks)\<close> only,
  so an id outside the range changes nothing; each such id is logged as an error, in
  order, and nothing else is logged; and every id in the range has the sender among
  the providers of its chunk afterwards.
\<close>

theorem storeChunkLocationInfo_record:
  "(no_duplicate_providers s \<longrightarrow>
      no_duplicate_providers (storeChunkLocationInfo s f ids sip sport speed))
   \<and> (chunk_location_info s f = Some table \<and> length table < 2 ^ 31
        \<and> (\<forall>i \<in> set ids. is_int32 i) \<longrightarrow>
      chunk_location_info (storeChunkLocationInfo s f ids sip sport speed) =
        chunk_location_info
          (storeChunkLocationInfo s f (filter (\<lambda>i. 0 \<le> i \<and> i < int (length table)) ids)
             sip sport speed)
      \<and> log (storeChunkLocationInfo s f ids sip sport speed) =
          log s @ map (\<lambda>i. (ERROR, out_of_range_text f i))
                    (filter (\<lambda>i. \<not> (0 \<le> i \<and> i < int (length table))) ids)
      \<and> (\<exists>table'. chunk_location_info (storeChunkLocationInfo s f ids sip sport speed) f
                     = Some table'
            \<and> length table' = length table
            \<and> (\<forall>i \<in> set ids. 0 \<le> i \<and> i < int (length table) \<longrightarrow>
                   (sip, sport) \<in> set (map endpoint (table' ! nat i)))))"
proof (intro conjI impI)
  assume "no_duplicate_providers s"
  then show "no_duplicate_providers (storeChunkLocationInfo s f ids sip sport speed)"
    by (rule storeChunkLocationInfo_no_duplicates)
next
  assume a: "chunk_location_info s f = Some table \<and> length table < 2 ^ 31
        \<and> (\<forall>i \<in> set ids. is_int32 i)"
  let ?s = "s\<lparr>chunk_location_info_mutex := insert f (chunk_location_info_mutex s)\<rparr>"
  have t: "chunk_location_info ?s f = Some table" and n: "length table < 2 ^ 31"
    and ids: "\<forall>i \<in> set ids. is_int32 i"
    using a by simp_all
  show "chunk_location_info (storeChunkLocationInfo s f ids sip sport speed) =
        chunk_location_info
          (storeChunkLocationInfo s f (filter (\<lambda>i. 0 \<le> i \<and> i < int (length table)) ids)
             sip sport speed)"
    using store_loop_filter [OF t refl n ids] by (simp add: storeChunkLocationInfo_def)
  show "log (storeChunkLocationInfo s f ids sip sport speed) =
          log s @ map (\<lambda>i. (ERROR, out_of_range_text f i))
                    (filter (\<lambda>i. \<not> (0 \<le> i \<and> i < int (length table))) ids)"
    using store_loop_log [OF t refl n ids] by (simp add: storeChunkLocationInfo_def)
  show "\<exists>table'. chunk_location_info (storeChunkLocationInfo s f ids sip sport speed) f
                     = Some table'
            \<and> length table' = length table
            \<and> (\<forall>i \<in> set ids. 0 \<le> i \<and> i < int (length table) \<longrightarrow>
                   (sip, sport) \<in> set (map endpoint (table' ! nat i)))"
    using store_loop_recorded [OF t refl n ids, of sip sport speed]
    by (auto simp: storeChunkLocationInfo_def)
qed

lemma static_cast_size_t_examples [simp]:
  "static_cast_size_t 0 = 0" "static_cast_size_t 1 = 1" "static_cast_size_t 2 = 2"
  "static_cast_size_t 5 = 5" "static_cast_size_t (- 1) = 18446744073709551615"
  by (simp_all add: static_cast_size_t_def)

theorem storeChunkLocationInfo_record_witness:
  "no_duplicate_providers (example_peer\<lparr>chunk_location_info := [''book.txt'' \<mapsto> [[], []]]\<rparr>)
   \<and> chunk_location_info (example_peer\<lparr>chunk_location_info := [''book.txt'' \<mapsto> [[], []]]\<rparr>)
        ''book.txt'' = Some [[], []]
   \<and> length [[], [] :: ChunkLocationInfo list] < 2 ^ 31
   \<and> is_int32 0 \<and> is_int32 5 \<and> is_int32 (- 1) \<and> is_int32 1
   \<and> no_duplicate_providers
        (storeChunkLocationInfo (example_peer\<lparr>chunk_location_info := [''book.txt'' \<mapsto> [[], []]]\<rparr>)
           ''book.txt'' [0, 5, - 1, 1, 0] ''10.0.0.2'' 5002 100)
   \<and> chunk_location_info
        (storeChunkLocationInfo (example_peer\<lparr>chunk_location_info := [''book.txt'' \<mapsto> [[], []]]\<rparr>)
           ''book.txt'' [0, 5, - 1, 1, 0] ''10.0.0.2'' 5002 100) ''book.txt''
      = Some [[provider_A], [provider_A]]
   \<and> log (storeChunkLocationInfo (example_peer\<lparr>chunk_location_info := [''book.txt'' \<mapsto> [[], []]]\<rparr>)
           ''book.txt'' [0, 5, - 1, 1, 0] ''10.0.0.2'' 5002 100)
      = [(ERROR, ''chunk_id 5 esta fora do intervalo para o arquivo: book.txt''),
         (ERROR, ''chunk_id -1 esta fora do intervalo para o arquivo: book.txt'')]"
proof -
  let ?s = "example_peer\<lparr>chunk_location_info := [''book.txt'' \<mapsto> [[], []]]\<rparr>"
  have inv: "no_duplicate_providers ?s"
    by (simp add: no_duplicate_providers_def)
  have pre: "chunk_location_info ?s ''book.txt'' = Some [[], []]
        \<and> length [[], [] :: ChunkLocationInfo list] < 2 ^ 31
        \<and> (\<forall>i \<in> set [0, 5, - 1, 1, 0]. is_int32 i)"
    by (simp add: is_int32_def)
  have eval: "chunk_location_info
        (storeChunkLocationInfo ?s ''book.txt'' [0, 1, 0] ''10.0.0.2'' 5002 100) ''book.txt''
      = Some [[provider_A], [provider_A]]"
    by (simp add: storeChunkLocationInfo_def store_chunk_id_def provider_A_def)
  from storeChunkLocationInfo_record
    [of ?s "''book.txt''" "[0, 5, - 1, 1, 0]" "''10.0.0.2''" 5002 100 "[[], []]"] inv pre
  have "no_duplicate_providers
          (storeChunkLocationInfo ?s ''book.txt'' [0, 5, - 1, 1, 0] ''10.0.0.2'' 5002 100)"
    and "chunk_location_info
          (storeChunkLocationInfo ?s ''book.txt'' [0, 5, - 1, 1, 0] ''10.0.0.2'' 5002 100) =
        chunk_location_info
          (storeChunkLocationInfo ?s ''book.txt''
             (filter (\<lambda>i. 0 \<le> i \<and> i < int (length [[], [] :: ChunkLocationInfo list]))
                [0, 5, - 1, 1, 0]) ''10.0.0.2'' 5002 100)"
    and "log (storeChunkLocationInfo ?s ''book.txt'' [0, 5, - 1, 1, 0] ''10.0.0.2'' 5002 100) =
          log ?s @ map (\<lambda>i. (ERROR, out_of_range_text ''book.txt'' i))
                    (filter (\<lambda>i. \<not> (0 \<le> i \<and> i < int (length [[], [] :: ChunkLocationInfo list])))
                       [0, 5, - 1, 1, 0])"
    by blast+
  with inv pre eval show ?thesis
    by (simp add: is_int32_def out_of_range_text_def)
qed

section \<open>Assembly\<close>

lemma empty_chunk_peer_simps [simp]:
  "directory empty_chunk_peer = ''./src/1''" "peer_id empty_chunk_peer = ''1''"
  "writable empty_chunk_peer = (\<lambda>_. True)"
  "file_chunks empty_chunk_peer ''book.txt'' = 2"
  "local_chunks empty_chunk_peer ''book.txt'' = {0, 1}"
  "files empty_chunk_peer = [''./src/1/book.txt.ch0'' \<mapsto> [], ''./src/1/book.txt.ch1'' \<mapsto> ''x'']"
  "chunk_location_info empty_chunk_peer = [''book.txt'' \<mapsto> [[], []]]"
  "chunk_location_info_mutex empty_chunk_peer = {''book.txt''}"
  by (simp_all add: empty_chunk_peer_def)

text \<open>
  Claim C2, at a peer that holds both chunks of a two-chunk file, chunk 0 being an
  empty file and chunk 1 the byte \<open>x\<close>.  \<open>assembleFile\<close> returns true and destroys
  the discovery table of the file, but the assembled file is empty: inserting the
  empty chunk sets \<^verbatim>\<open>failbit\<close> on the output stream, the stream is never tested, and
  chunk 1 is not written.  The concatenation of the chunks is \<open>x\<close>.
\<close>

theorem assembleFile_empty_chunk:
  "fst (assembleFile empty_chunk_peer ''book.txt'') = True
   \<and> files (snd (assembleFile empty_chunk_peer ''book.txt'')) ''./src/1/book.txt'' = Some []
   \<and> chunk_location_info (snd (assembleFile empty_chunk_peer ''book.txt'')) ''book.txt'' = None
   \<and> files empty_chunk_peer ''./src/1/book.txt.ch0'' = Some []
   \<and> files empty_chunk_peer ''./src/1/book.txt.ch1'' = Some ''x''"
  by (simp add: assembleFile_def ofstream_open_def assemble_loop.simps getChunkPath_def
      insert_rdbuf_def displaySuccessMessage_def clearChunkLocationInfo_def Let_def)

section \<open>The metadata reader and the start of a search\<close>

lemma malformed_metadata_peer_simps [simp]:
  "srv_ip malformed_metadata_peer = ''10.0.0.1''" "srv_port malformed_metadata_peer = 5001"
  "udpNeighbors malformed_metadata_peer = [(''10.0.0.2'', 5002), (''10.0.0.3'', 5003)]"
  "directory malformed_metadata_peer = ''./src/1''"
  "local_chunks malformed_metadata_peer = (\<lambda>_. {})"
  "chunk_location_info malformed_metadata_peer = Map.empty"
  "udp_sent malformed_metadata_peer = []"
  "sendto_ok malformed_metadata_peer = (\<lambda>_ _. True)"
  "writable malformed_metadata_peer = (\<lambda>_. True)"
  "files malformed_metadata_peer = [''./src/book.txt.p2p'' \<mapsto> ''book.txt'' @ [CHR 0x0A] @ ''3 x'']"
  by (simp_all add: malformed_metadata_peer_def)

lemma extract_int_examples:
  "extract_int ''3 x'' = (Some 3, True, '' x'')"
  "extract_int '' x'' = (Some 0, False, ''x'')"
  by (simp_all add: extract_int_def isspace_def isdigit_def split_sign_def digits_value_def)

lemma loadMetadata_malformed:
  "loadMetadata malformed_metadata_peer ''book.txt'' =
     (Inr (''book.txt'', 3, 0), malformed_metadata_peer)"
  by (simp add: loadMetadata_def BASE_PATH_def extract_int_examples)

lemma plan_loop_no_providers:
  "\<forall>providers \<in> set table. providers = [] \<Longrightarrow> plan_loop srt i table m = m"
  by (induction table arbitrary: i) simp_all

lemma sendChunkRequestMessage_no_providers:
  assumes "chunk_location_info s f = Some table" and "\<forall>providers \<in> set table. providers = []"
  shows "sendChunkRequestMessage srt s f =
         Inr (s\<lparr>chunk_location_info_mutex := insert f (chunk_location_info_mutex s)\<rparr>)"
  using assms
  by (simp add: sendChunkRequestMessage_def selectPeersForChunkDownload_def
      plan_loop_no_providers)

lemma discovery_loop_chunk_location_info [simp]:
  "chunk_location_info (discovery_loop s message neighbors) = chunk_location_info s"
  by (induction s message neighbors rule: discovery_loop.induct)
     (simp_all add: sendUDPMessage_def)

lemma sendChunkDiscoveryMessage_fields [simp]:
  "chunk_location_info (sendChunkDiscoveryMessage s f n ttl rip rport) = chunk_location_info s"
  "udp_sent (sendChunkDiscoveryMessage s f n ttl rip rport) =
     udp_sent s @ map (\<lambda>(neighbor_ip, neighbor_port).
                        (neighbor_ip, neighbor_port, buildChunkDiscoveryMessage f n ttl rip rport))
                    (udpNeighbors s)"
  by (simp_all add: sendChunkDiscoveryMessage_def discovery_loop_udp_sent)

lemma waitForResponses_fields [simp]:
  "chunk_location_info (waitForResponses s f) = chunk_location_info s"
  "udp_sent (waitForResponses s f) = udp_sent s"
  by (simp_all add: waitForResponses_def)

lemma initializeProcessingActive_fields [simp]:
  "chunk_location_info (initializeProcessingActive s f) = chunk_location_info s"
  "udp_sent (initializeProcessingActive s f) = udp_sent s"
  "udpNeighbors (initializeProcessingActive s f) = udpNeighbors s"
  "srv_ip (initializeProcessingActive s f) = srv_ip s"
  "srv_port (initializeProcessingActive s f) = srv_port s"
  by (simp_all add: initializeProcessingActive_def)

text \<open>
  When the sidecar cannot be opened \<open>loadMetadata\<close> logs the error and returns the
  sentinel, and \<open>searchFile\<close> ends there: the peer is as before but for that log
  line, so no discovery state exists for the file and no datagram was sent.
\<close>

lemma metadata_open_failure:
  assumes "files s (BASE_PATH @ f @ ''.p2p'') = None"
  shows "fst (loadMetadata s f) = Inr ([], - 1, - 1)
    \<and> searchFile srt s f =
        Inr (s\<lparr>log := log s @
               [(ERROR, ''Erro ao abrir o arquivo de metadados para '' @ f
                   @ ''. Verifique se o arquivo de metadados '' @ f
                   @ ''.p2p se encontra em '' @ BASE_PATH)]\<rparr>)"
  using assms by (simp add: loadMetadata_def searchFile_def logMessage_def)

text \<open>
  Claim C8.  The search of a file is abandoned when its sidecar is missing or
  malformed.  For a sidecar that cannot be opened that is what happens.  For a
  sidecar that opens, \<open>searchFile\<close> tests the two numbers against the sentinel to
  see that the reading succeeded, but \<open>loadMetadata\<close> never tests the stream after
  its extractions, so a malformed sidecar does not produce the sentinel.  With the
  sidecar \<open>book.txt\<close>, newline, \<open>3 x\<close> the extraction of the TTL fails and writes
  zero, \<open>loadMetadata\<close> returns \<open>(book.txt, 3, 0)\<close>, and \<open>searchFile\<close> creates the
  discovery table of the file and floods a DISCOVERY with TTL 0.
\<close>

theorem searchFile_malformed_metadata:
  "fst (loadMetadata malformed_metadata_peer ''book.txt'') = Inr (''book.txt'', 3, 0)
   \<and> \<not> isl (searchFile insertion_sort_by_speed malformed_metadata_peer ''book.txt'')
   \<and> chunk_location_info
        (projr (searchFile insertion_sort_by_speed malformed_metadata_peer ''book.txt''))
        ''book.txt'' = Some [[], [], []]
   \<and> udp_sent (projr (searchFile insertion_sort_by_speed malformed_metadata_peer ''book.txt'')) =
        [(''10.0.0.2'', 5002, ''DISCOVERY book.txt 3 0 10.0.0.1:5001''),
         (''10.0.0.3'', 5003, ''DISCOVERY book.txt 3 0 10.0.0.1:5001'')]"
proof -
  have init: "initializeChunkLocationInfo
        (initializeFileChunks malformed_metadata_peer ''book.txt'' 3) ''book.txt'' =
      Inr (malformed_metadata_peer
             \<lparr>file_chunks := (file_chunks malformed_metadata_peer)(''book.txt'' := 3),
              chunk_location_info := [''book.txt'' \<mapsto> [[], [], []]],
              chunk_location_info_mutex :=
                insert ''book.txt'' (chunk_location_info_mutex malformed_metadata_peer)\<rparr>)"
    by (simp add: initializeChunkLocationInfo_def initializeFileChunks_def static_cast_size_t_def
        vector_max_size_def numeral_3_eq_3)
  let ?s2 = "malformed_metadata_peer
             \<lparr>file_chunks := (file_chunks malformed_metadata_peer)(''book.txt'' := 3),
              chunk_location_info := [''book.txt'' \<mapsto> [[], [], []]],
              chunk_location_info_mutex :=
                insert ''book.txt'' (chunk_location_info_mutex malformed_metadata_peer)\<rparr>"
  have search: "searchFile insertion_sort_by_speed malformed_metadata_peer ''book.txt'' =
      discoverAndRequestChunks insertion_sort_by_speed ?s2 ''book.txt'' 3 0"
    by (simp add: searchFile_def loadMetadata_malformed init)
  have asm: "assembleFile (initializeProcessingActive ?s2 ''book.txt'') ''book.txt'' =
      (False, initializeProcessingActive ?s2 ''book.txt'')"
    by (simp add: assembleFile_def initializeProcessingActive_def static_cast_size_t_def)
  let ?s4 = "waitForResponses
               (sendChunkDiscoveryMessage (initializeProcessingActive ?s2 ''book.txt'') ''book.txt'' 3 0
                  ''10.0.0.1'' 5001) ''book.txt''"
  have table: "chunk_location_info ?s4 ''book.txt'' = Some [[], [], []]"
    by simp
  have sent: "udp_sent ?s4 =
        [(''10.0.0.2'', 5002, ''DISCOVERY book.txt 3 0 10.0.0.1:5001''),
         (''10.0.0.3'', 5003, ''DISCOVERY book.txt 3 0 10.0.0.1:5001'')]"
    by (simp add: buildChunkDiscoveryMessage_def)
  have "discoverAndRequestChunks insertion_sort_by_speed ?s2 ''book.txt'' 3 0 =
        sendChunkRequestMessage insertion_sort_by_speed ?s4 ''book.txt''"
    by (simp add: discoverAndRequestChunks_def asm)
  also have "\<dots> = Inr (?s4\<lparr>chunk_location_info_mutex :=
                            insert ''book.txt'' (chunk_location_info_mutex ?s4)\<rparr>)"
    by (rule sendChunkRequestMessage_no_providers [OF table]) simp
  finally show ?thesis
    using table sent by (simp add: search loadMetadata_malformed)
qed

section \<open>The stream transport\<close>

lemma fill_control_message_buffer_padded:
  assumes "length cm \<le> 1023"
  shows "fill_control_message_buffer cm = cm @ replicate (1024 - length cm) NUL"
proof -
  have "(cm @ replicate (1024 - length cm) NUL) ! length cm = NUL"
    using assms by (simp add: nth_append)
  then have "(cm @ replicate (1024 - length cm) NUL)[length cm := NUL] =
             cm @ replicate (1024 - length cm) NUL"
    by (metis list_update_id)
  with assms show ?thesis
    by (simp add: fill_control_message_buffer_def CONTROL_MESSAGE_MAX_SIZE_def min_absorb1)
qed

lemma length_fill_control_message_buffer [simp]:
  "length (fill_control_message_buffer cm) = 1024"
  by (simp add: fill_control_message_buffer_def CONTROL_MESSAGE_MAX_SIZE_def Let_def)

lemma fill_control_message_buffer_not_Nil [simp]:
  "fill_control_message_buffer cm \<noteq> []"
proof
  assume "fill_control_message_buffer cm = []"
  then have "length (fill_control_message_buffer cm) = 0"
    by (simp only: list.size)
  then show False
    by simp
qed

lemma fill_control_message_buffer_not_Nil2 [simp]:
  "[] \<noteq> fill_control_message_buffer cm"
  using fill_control_message_buffer_not_Nil [of cm] by metis

lemma strip_nul_padding_padded:
  assumes "cm = [] \<or> last cm \<noteq> NUL"
  shows "strip_nul_padding (cm @ replicate k NUL) = cm"
proof -
  have "dropWhile (\<lambda>c. c = NUL) (replicate k NUL @ rev cm) = dropWhile (\<lambda>c. c = NUL) (rev cm)"
    by (induction k) simp_all
  also have "\<dots> = rev cm"
    using assms by (cases cm rule: rev_cases) simp_all
  finally show ?thesis
    by (simp add: strip_nul_padding_def)
qed

lemma digit_not_NUL: "k < 10 \<Longrightarrow> ''0123456789'' ! k \<noteq> NUL"
proof -
  assume "k < 10"
  then have "''0123456789'' ! k \<in> set ''0123456789''"
    by (intro nth_mem) simp
  then show ?thesis
    by (auto simp: NUL_def)
qed

lemma digits_last: "digits n \<noteq> [] \<and> last (digits n) \<noteq> NUL"
  by (subst (1 2) digits.simps) (simp add: digit_not_NUL)

lemma to_string_last: "to_string i \<noteq> [] \<and> last (to_string i) \<noteq> NUL"
  using digits_last by (simp add: to_string_def)

lemma build_control_message_last:
  "last (build_control_message s file_name chunk chunk_size) \<noteq> NUL"
  using to_string_last [of "int chunk_size"] by (simp add: build_control_message_def)

lemma recv_control_message_whole:
  assumes "length acc + length (concat segments) = 1024" and "length acc < 1024"
    and "[] \<notin> set segments"
  shows "recv_control_message segments acc (length acc) = (Some (acc @ concat segments), [])"
  using assms
proof (induction segments arbitrary: acc)
  case Nil
  then show ?case by simp
next
  case (Cons segment segments)
  from Cons.prems have seg: "segment \<noteq> []" "length segment \<le> 1024"
    by auto
  show ?case
  proof (cases "length acc + length segment < 1024")
    case True
    have "recv_control_message (segment # segments) acc (length acc) =
          recv_control_message segments (acc @ segment) (length (acc @ segment))"
      using seg True
      by (subst recv_control_message.simps) (simp add: CONTROL_MESSAGE_MAX_SIZE_def)
    also have "\<dots> = (Some ((acc @ segment) @ concat segments), [])"
      using Cons.prems True by (intro Cons.IH) simp_all
    finally show ?thesis by simp
  next
    case False
    from Cons.prems have "length acc + (length segment + length (concat segments)) = 1024"
      by simp
    with False have "length (concat segments) = 0"
      by linarith
    then have "\<forall>xs \<in> set segments. xs = []"
      by simp
    with Cons.prems have "segments = []"
      by (cases segments) auto
    then show ?thesis
      using seg False
      by (subst recv_control_message.simps) (simp add: CONTROL_MESSAGE_MAX_SIZE_def)
  qed
qed


lemma paced_trace_simps [simp]:
  "paced_trace [] = []"
  "paced_trace (block # blocks) = Send block # Sleep_1s # paced_trace blocks"
  "paced_trace (xs @ ys) = paced_trace xs @ paced_trace ys"
  by (simp_all add: paced_trace_def)

lemma send_control_loop_blocks:
  assumes "0 < rate" and "length buffer = 1024"
  shows "\<exists>blocks. send_control_loop rate buffer sent trace = Inr (trace @ paced_trace blocks)
           \<and> concat blocks = drop sent buffer
           \<and> (\<forall>block \<in> set blocks. block \<noteq> [] \<and> int (length block) \<le> rate)"
  using assms
proof (induction rate buffer sent trace rule: send_control_loop.induct)
  case (1 speed buffer sent trace)
  show ?case
  proof (cases "sent < 1024")
    case False
    with "1.prems" have "send_control_loop speed buffer sent trace = Inr (trace @ paced_trace [])"
      by (subst send_control_loop.simps) (simp add: CONTROL_MESSAGE_MAX_SIZE_def)
    moreover from False "1.prems" have "concat [] = drop sent buffer"
      by simp
    ultimately show ?thesis
      by (intro exI [of _ "[]"]) simp
  next
    case True
    define m where "m = min speed (int CONTROL_MESSAGE_MAX_SIZE - int sent)"
    define n where "n = nat m"
    have sent: "sent < CONTROL_MESSAGE_MAX_SIZE"
      using True by (simp add: CONTROL_MESSAGE_MAX_SIZE_def)
    have m: "0 < m" "m \<noteq> 0" "\<not> m < 0"
      using True "1.prems" by (simp_all add: m_def CONTROL_MESSAGE_MAX_SIZE_def)
    have n: "0 < n" "n \<le> 1024 - sent" "int n \<le> speed"
      using True "1.prems" by (auto simp: n_def m_def CONTROL_MESSAGE_MAX_SIZE_def)
    have unfold: "send_control_loop speed buffer sent trace =
          send_control_loop speed buffer (sent + n)
            (trace @ [Send (take n (drop sent buffer)), Sleep_1s])"
      using sent m
      by (subst send_control_loop.simps) (simp add: Let_def n_def flip: m_def)
    have "\<exists>blocks. send_control_loop speed buffer (sent + n)
               (trace @ [Send (take n (drop sent buffer)), Sleep_1s]) =
             Inr ((trace @ [Send (take n (drop sent buffer)), Sleep_1s]) @ paced_trace blocks)
           \<and> concat blocks = drop (sent + n) buffer
           \<and> (\<forall>block \<in> set blocks. block \<noteq> [] \<and> int (length block) \<le> speed)"
      using "1.IH" [OF sent m_def m(3) m(2) "1.prems"] by (simp add: n_def)
    then obtain blocks where
      step: "send_control_loop speed buffer (sent + n)
               (trace @ [Send (take n (drop sent buffer)), Sleep_1s]) =
             Inr ((trace @ [Send (take n (drop sent buffer)), Sleep_1s]) @ paced_trace blocks)"
      and rest: "concat blocks = drop (sent + n) buffer"
      and small: "\<forall>block \<in> set blocks. block \<noteq> [] \<and> int (length block) \<le> speed"
      by blast
    have "send_control_loop speed buffer sent trace =
          Inr (trace @ paced_trace (take n (drop sent buffer) # blocks))"
      using unfold step by simp
    moreover have "concat (take n (drop sent buffer) # blocks) = drop sent buffer"
      using rest by (simp add: add.commute [of sent n] flip: drop_drop)
    moreover have "take n (drop sent buffer) \<noteq> []" "int (length (take n (drop sent buffer))) \<le> speed"
      using n True "1.prems" by auto
    ultimately show ?thesis
      using small by (intro exI [of _ "take n (drop sent buffer) # blocks"]) simp
  qed
qed


lemma static_cast_size_t_rate:
  "0 < rate \<Longrightarrow> rate < 2 ^ 31 \<Longrightarrow> static_cast_size_t rate = nat rate"
  by (simp add: static_cast_size_t_def)

lemma blocks_needed_step:
  fixes r x :: nat
  assumes "0 < r" and "0 < x"
  shows "(x + r - 1) div r = Suc ((x - min r x + r - 1) div r)"
proof (cases "r \<le> x")
  case True
  then have "x + r - 1 = (x - r + r - 1) + r"
    using assms by simp
  moreover have "((x - r + r - 1) + r) div r = (x - r + r - 1) div r + 1"
    using assms by (intro div_add_self2) simp
  ultimately have "(x + r - 1) div r = Suc ((x - r + r - 1) div r)"
    by (simp only: Suc_eq_plus1)
  with True show ?thesis
    by (simp only: min_absorb1)
next
  case False
  then have "r \<le> x + r - 1" "x + r - 1 < 2 * r"
    using assms by simp_all
  then have "(x + r - 1) div r = 1"
    by (metis One_nat_def div_less div_add_self1 add.commute le_Suc_ex less_not_refl2
        mult_2 nat_add_left_cancel_less plus_1_eq_Suc add_0 assms(1))
  with False assms show ?thesis
    by (simp add: min_absorb2)
qed

lemma send_chunk_loop_blocks:
  assumes "0 < rate" and "rate < 2 ^ 31"
  shows "\<exists>blocks. send_chunk_loop rate file_buffer sent trace = trace @ paced_trace blocks
           \<and> concat blocks = drop sent file_buffer
           \<and> (\<forall>block \<in> set blocks. block \<noteq> [] \<and> int (length block) \<le> rate)
           \<and> length blocks = (length file_buffer - sent + nat rate - 1) div nat rate"
  using assms
proof (induction rate file_buffer sent trace rule: send_chunk_loop.induct)
  case (1 speed file_buffer sent trace)
  have cast: "static_cast_size_t speed = nat speed"
    using "1.prems" by (rule static_cast_size_t_rate)
  show ?case
  proof (cases "sent < length file_buffer")
    case False
    then have "send_chunk_loop speed file_buffer sent trace = trace @ paced_trace []"
      by (subst send_chunk_loop.simps) simp
    moreover from False have "concat [] = drop sent file_buffer"
      by simp
    moreover from False "1.prems" have "length ([] :: string list) =
        (length file_buffer - sent + nat speed - 1) div nat speed"
      by simp
    ultimately show ?thesis
      by (intro exI [of _ "[]"]) simp
  next
    case True
    define n where "n = min (static_cast_size_t speed) (length file_buffer - sent)"
    have n: "0 < n" "n \<noteq> 0" "n \<le> length file_buffer - sent" "int n \<le> speed"
      "n = min (nat speed) (length file_buffer - sent)"
      using True "1.prems" by (auto simp: n_def cast)
    have unfold: "send_chunk_loop speed file_buffer sent trace =
          send_chunk_loop speed file_buffer (sent + n)
            (trace @ [Send (take n (drop sent file_buffer)), Sleep_1s])"
      using True n(2)
      by (subst send_chunk_loop.simps) (simp add: Let_def flip: n_def)
    from "1.IH" [OF True n_def n(2) "1.prems"]
    obtain blocks where
      step: "send_chunk_loop speed file_buffer (sent + n)
               (trace @ [Send (take n (drop sent file_buffer)), Sleep_1s]) =
             (trace @ [Send (take n (drop sent file_buffer)), Sleep_1s]) @ paced_trace blocks"
      and rest: "concat blocks = drop (sent + n) file_buffer"
      and small: "\<forall>block \<in> set blocks. block \<noteq> [] \<and> int (length block) \<le> speed"
      and count: "length blocks = (length file_buffer - (sent + n) + nat speed - 1) div nat speed"
      by blast
    have "send_chunk_loop speed file_buffer sent trace =
          trace @ paced_trace (take n (drop sent file_buffer) # blocks)"
      using unfold step by simp
    moreover have "concat (take n (drop sent file_buffer) # blocks) = drop sent file_buffer"
      using rest by (simp add: add.commute [of sent n] flip: drop_drop)
    moreover have "take n (drop sent file_buffer) \<noteq> []"
      "int (length (take n (drop sent file_buffer))) \<le> speed"
      using n True by auto
    moreover have "length (take n (drop sent file_buffer) # blocks) =
        (length file_buffer - sent + nat speed - 1) div nat speed"
    proof -
      have "length file_buffer - (sent + n) = length file_buffer - sent - n"
        by simp
      with count have "length blocks =
          (length file_buffer - sent - min (nat speed) (length file_buffer - sent) + nat speed - 1)
          div nat speed"
        by (simp only: n(5))
      moreover have "(length file_buffer - sent + nat speed - 1) div nat speed =
          Suc ((length file_buffer - sent - min (nat speed) (length file_buffer - sent)
                + nat speed - 1) div nat speed)"
        using True "1.prems" by (intro blocks_needed_step) simp_all
      ultimately show ?thesis
        by simp
    qed
    ultimately show ?thesis
      using small by (intro exI [of _ "take n (drop sent file_buffer) # blocks"]) simp
  qed
qed

lemma filter_Sleep_paced_trace:
  "length (filter (\<lambda>e. e = Sleep_1s) (paced_trace blocks)) = length blocks"
  by (induction blocks) simp_all

lemma sleeps_between_paced_trace:
  "sleeps_between_first_and_last_send (paced_trace blocks) = length blocks - 1"
proof (cases blocks rule: rev_cases)
  case Nil
  then show ?thesis
    by (simp add: sleeps_between_first_and_last_send_def)
next
  case (snoc blocks' block)
  have first: "dropWhile (\<lambda>e. \<not> is_Send e) (paced_trace (blocks' @ [block])) =
               paced_trace (blocks' @ [block])"
    by (cases blocks') simp_all
  show ?thesis
    by (simp add: sleeps_between_first_and_last_send_def first snoc filter_Sleep_paced_trace
        del: paced_trace_simps(3)) (simp add: filter_Sleep_paced_trace)
qed

lemma strip_nul_padding_truncated:
  assumes "1024 \<le> length cm"
  shows "length (strip_nul_padding (fill_control_message_buffer cm)) \<le> 1023"
proof -
  have "fill_control_message_buffer cm = take 1023 cm @ [NUL]"
    using assms
    by (simp add: fill_control_message_buffer_def CONTROL_MESSAGE_MAX_SIZE_def min_absorb2
        list_update_append)
  then have "strip_nul_padding (fill_control_message_buffer cm) =
             rev (dropWhile (\<lambda>c. c = NUL) (rev (take 1023 cm)))"
    by (simp add: strip_nul_padding_def)
  then have "length (strip_nul_padding (fill_control_message_buffer cm)) \<le> length (take 1023 cm)"
    using length_dropWhile_le [of "\<lambda>c. c = NUL" "rev (take 1023 cm)"] by simp
  then show ?thesis
    by simp
qed

lemma recv_control_message_frame:
  assumes "length acc + length (concat header_reads) = 1024" and "length acc < 1024"
    and "[] \<notin> set header_reads"
  shows "recv_control_message (header_reads @ following) acc (length acc) =
         (Some (acc @ concat header_reads), following)"
  using assms
proof (induction header_reads arbitrary: acc)
  case Nil
  then show ?case by simp
next
  case (Cons segment segments)
  from Cons.prems have seg: "segment \<noteq> []" "length segment \<le> 1024"
    by auto
  show ?case
  proof (cases "length acc + length segment < 1024")
    case True
    have "recv_control_message ((segment # segments) @ following) acc (length acc) =
          recv_control_message (segments @ following) (acc @ segment) (length (acc @ segment))"
      using seg True
      by (subst recv_control_message.simps) (simp add: CONTROL_MESSAGE_MAX_SIZE_def)
    also have "\<dots> = (Some ((acc @ segment) @ concat segments), following)"
      using Cons.prems True by (intro Cons.IH) simp_all
    finally show ?thesis by simp
  next
    case False
    from Cons.prems have "length acc + (length segment + length (concat segments)) = 1024"
      by simp
    with False have "length (concat segments) = 0"
      by linarith
    then have "\<forall>xs \<in> set segments. xs = []"
      by simp
    with Cons.prems have "segments = []"
      by (cases segments) auto
    then show ?thesis
      using seg False
      by (subst recv_control_message.simps) (simp add: CONTROL_MESSAGE_MAX_SIZE_def)
  qed
qed

lemma NUL_notin_digits: "NUL \<notin> set (digits n)"
proof (induction n rule: digits.induct)
  case (1 n)
  have last_digit: "''0123456789'' ! (n mod 10) \<noteq> NUL"
    by (rule digit_not_NUL) simp
  show ?case
  proof (cases "n < 10")
    case True
    then have "''0123456789'' ! n \<noteq> NUL"
      by (rule digit_not_NUL)
    with True show ?thesis
      by (subst digits.simps) auto
  next
    case False
    with 1 last_digit show ?thesis
      by (subst digits.simps) auto
  qed
qed

lemma NUL_notin_to_string: "NUL \<notin> set (to_string i)"
  using NUL_notin_digits by (auto simp: to_string_def NUL_def)

lemma NUL_notin_build_control_message:
  "NUL \<notin> set file_name \<Longrightarrow> NUL \<notin> set (build_control_message s file_name chunk chunk_size)"
  using NUL_notin_to_string by (auto simp: build_control_message_def NUL_def)

lemma fill_control_message_buffer_truncated:
  assumes "1024 \<le> length cm"
  shows "fill_control_message_buffer cm = take 1023 cm @ [NUL]"
  using assms
  by (simp add: fill_control_message_buffer_def CONTROL_MESSAGE_MAX_SIZE_def min_absorb2
      list_update_append)

lemma strip_nul_padding_cut:
  assumes "1024 \<le> length cm" and "NUL \<notin> set cm"
  shows "strip_nul_padding (fill_control_message_buffer cm) = take 1023 cm"
proof -
  have "take 1023 cm = [] \<or> last (take 1023 cm) \<noteq> NUL"
    using assms(2) by (metis in_set_takeD last_in_set)
  then have "strip_nul_padding (take 1023 cm @ replicate 1 NUL) = take 1023 cm"
    by (rule strip_nul_padding_padded)
  then show ?thesis
    using assms(1) by (simp add: fill_control_message_buffer_truncated)
qed

lemma long_header_length:
  "length (build_control_message long_header_peer long_file_name 0 256) = 1024"
  by (simp add: build_control_message_def long_header_peer_def long_file_name_def
      to_string_def digits.simps)

text \<open>
  Claim C7 as stated fails in two ways.  A header of exactly 1024 bytes (here the
  header of a peer with rate 1000000000 for chunk 0, of 256 bytes, of a file in
  nested directories whose name has 1003 bytes) loses its last byte: the sender
  copies at most 1023 bytes of the header and writes a NUL after them.  And a short
  header is not what the receiver holds when one of its reads returns the end of the
  frame together with the bytes sent after it: every read asks for 1024 bytes, so
  the first 64 bytes of the payload end up in the control message.
\<close>

theorem control_header_1024_counterexample:
  "length (build_control_message long_header_peer long_file_name 0 256) = 1024
   \<and> fst (recv_control_message
             [fill_control_message_buffer
                (build_control_message long_header_peer long_file_name 0 256)] [] 0)
      = Some (fill_control_message_buffer
                (build_control_message long_header_peer long_file_name 0 256))
   \<and> strip_nul_padding
        (fill_control_message_buffer
           (build_control_message long_header_peer long_file_name 0 256))
      \<noteq> build_control_message long_header_peer long_file_name 0 256
   \<and> build_control_message example_peer ''book.txt'' 0 256 = ''PUT book.txt 0 64 256''
   \<and> recv_control_message
        [take 960 (fill_control_message_buffer ''PUT book.txt 0 64 256''),
         drop 960 (fill_control_message_buffer ''PUT book.txt 0 64 256'')
           @ replicate 64 (CHR ''a''),
         replicate 192 (CHR ''a'')] [] 0
      = (Some (fill_control_message_buffer ''PUT book.txt 0 64 256'' @ replicate 64 (CHR ''a'')),
         [replicate 192 (CHR ''a'')])
   \<and> strip_nul_padding
        (fill_control_message_buffer ''PUT book.txt 0 64 256'' @ replicate 64 (CHR ''a''))
      \<noteq> ''PUT book.txt 0 64 256''"
proof -
  let ?cm = "build_control_message long_header_peer long_file_name 0 256"
  note len = long_header_length
  have "recv_control_message [fill_control_message_buffer ?cm] [] (length ([] :: string)) =
        (Some ([] @ concat [fill_control_message_buffer ?cm]), [])"
    by (rule recv_control_message_whole) auto
  then have read: "fst (recv_control_message [fill_control_message_buffer ?cm] [] 0) =
        Some (fill_control_message_buffer ?cm)"
    by simp
  have "length (strip_nul_padding (fill_control_message_buffer ?cm)) \<le> 1023"
    using len by (intro strip_nul_padding_truncated) simp
  with len have cut: "strip_nul_padding (fill_control_message_buffer ?cm) \<noteq> ?cm"
    by auto
  have cm: "build_control_message example_peer ''book.txt'' 0 256 = ''PUT book.txt 0 64 256''"
    by (simp add: build_control_message_def)
  let ?frame = "fill_control_message_buffer ''PUT book.txt 0 64 256''"
  let ?payload = "replicate 64 (CHR ''a'')"
  let ?rest = "replicate 192 (CHR ''a'')"
  have first: "recv_control_message [take 960 ?frame, drop 960 ?frame @ ?payload, ?rest] [] 0 =
        recv_control_message [drop 960 ?frame @ ?payload, ?rest] (take 960 ?frame) 960"
    by (subst recv_control_message.simps) (simp add: CONTROL_MESSAGE_MAX_SIZE_def)
  have second: "recv_control_message [drop 960 ?frame @ ?payload, ?rest] (take 960 ?frame) 960 =
        (Some (take 960 ?frame @ drop 960 ?frame @ ?payload), [?rest])"
    by (subst recv_control_message.simps) (simp add: CONTROL_MESSAGE_MAX_SIZE_def)
  have "take 960 ?frame @ drop 960 ?frame @ ?payload = ?frame @ ?payload"
    by (simp only: append_assoc [symmetric] append_take_drop_id)
  with first second have straddle:
    "recv_control_message [take 960 ?frame, drop 960 ?frame @ ?payload, ?rest] [] 0 =
       (Some (?frame @ ?payload), [?rest])"
    by (simp only:)
  have "length (strip_nul_padding ((?frame @ ?payload) @ replicate 0 NUL)) = 1088"
    by (subst strip_nul_padding_padded) (simp_all add: NUL_def)
  then have "length (strip_nul_padding (?frame @ ?payload)) = 1088"
    by simp
  then have more: "strip_nul_padding (?frame @ ?payload) \<noteq> ''PUT book.txt 0 64 256''"
    by auto
  from len read cut cm straddle more show ?thesis
    by (intro conjI)
qed

text \<open>
  Claim C7, amended.  Let the bytes of the frame of the header
  \<open>PUT file chunk rate size\<close> arrive in reads that are not empty and end where the
  frame ends, whatever follows the frame on the connection.  Then the receiver's
  loop reads the 1024 bytes of the frame and leaves what follows.  For a header of
  at most 1023 bytes the frame without its NUL padding is the header; a header of
  1024 bytes or more is cut: its frame is the first 1023 bytes and one NUL, and
  without the padding those 1023 bytes (for a file name without NUL).  The blocks
  that a sender with a positive rate hands to \<^verbatim>\<open>send\<close> for a chunk are such reads: the
  header blocks give the frame, and the payload blocks are left for the payload.
\<close>

theorem control_header_roundtrip:
  assumes "concat header_reads =
             fill_control_message_buffer (build_control_message s file_name chunk chunk_size)"
    and "[] \<notin> set header_reads"
  shows "recv_control_message (header_reads @ following) [] 0 =
           (Some (fill_control_message_buffer
                    (build_control_message s file_name chunk chunk_size)), following)
       \<and> length (fill_control_message_buffer
                   (build_control_message s file_name chunk chunk_size)) = 1024
       \<and> (length (build_control_message s file_name chunk chunk_size) \<le> 1023 \<longrightarrow>
            strip_nul_padding
              (fill_control_message_buffer (build_control_message s file_name chunk chunk_size))
            = build_control_message s file_name chunk chunk_size)
       \<and> (1024 \<le> length (build_control_message s file_name chunk chunk_size) \<longrightarrow>
            fill_control_message_buffer (build_control_message s file_name chunk chunk_size)
            = take 1023 (build_control_message s file_name chunk chunk_size) @ [NUL]
          \<and> (NUL \<notin> set file_name \<longrightarrow>
               strip_nul_padding
                 (fill_control_message_buffer (build_control_message s file_name chunk chunk_size))
               = take 1023 (build_control_message s file_name chunk chunk_size)))
       \<and> (0 < srv_transfer_speed s \<and> srv_transfer_speed s < 2 ^ 31
            \<and> chunk_size = length file_buffer \<longrightarrow>
            (\<exists>header_blocks payload_blocks.
               send_one_chunk s file_name chunk file_buffer =
                 Inr (paced_trace (header_blocks @ payload_blocks))
             \<and> concat header_blocks =
                 fill_control_message_buffer (build_control_message s file_name chunk chunk_size)
             \<and> [] \<notin> set header_blocks
             \<and> concat payload_blocks = file_buffer
             \<and> recv_control_message (header_blocks @ payload_blocks) [] 0 =
                 (Some (fill_control_message_buffer
                          (build_control_message s file_name chunk chunk_size)),
                  payload_blocks)))"
proof -
  let ?cm = "build_control_message s file_name chunk chunk_size"
  let ?frame = "fill_control_message_buffer ?cm"
  have frame: "recv_control_message (reads @ rest) [] 0 = (Some ?frame, rest)"
    if "concat reads = ?frame" and "[] \<notin> set reads" for reads rest
  proof -
    have "recv_control_message (reads @ rest) [] (length ([] :: string)) =
          (Some ([] @ concat reads), rest)"
      using that by (intro recv_control_message_frame) simp_all
    with that show ?thesis
      by simp
  qed
  have read: "recv_control_message (header_reads @ following) [] 0 = (Some ?frame, following)"
    using assms by (rule frame)
  have short: "strip_nul_padding ?frame = ?cm" if "length ?cm \<le> 1023"
    using that build_control_message_last [of s file_name chunk chunk_size]
    by (simp add: fill_control_message_buffer_padded strip_nul_padding_padded)
  have cut: "?frame = take 1023 ?cm @ [NUL]" if "1024 \<le> length ?cm"
    using that by (rule fill_control_message_buffer_truncated)
  have stripped: "strip_nul_padding ?frame = take 1023 ?cm"
    if "1024 \<le> length ?cm" and "NUL \<notin> set file_name"
    using that by (intro strip_nul_padding_cut NUL_notin_build_control_message)
  have sender: "\<exists>header_blocks payload_blocks.
               send_one_chunk s file_name chunk file_buffer =
                 Inr (paced_trace (header_blocks @ payload_blocks))
             \<and> concat header_blocks = ?frame
             \<and> [] \<notin> set header_blocks
             \<and> concat payload_blocks = file_buffer
             \<and> recv_control_message (header_blocks @ payload_blocks) [] 0 =
                 (Some ?frame, payload_blocks)"
    if rate: "0 < srv_transfer_speed s" "srv_transfer_speed s < 2 ^ 31"
      and size: "chunk_size = length file_buffer"
  proof -
    from send_control_loop_blocks [OF rate(1) length_fill_control_message_buffer, of ?cm 0 "[]"]
    obtain header_blocks where
      header: "send_control_loop (srv_transfer_speed s) ?frame 0 [] =
                 Inr (paced_trace header_blocks)"
      and header_bytes: "concat header_blocks = ?frame"
      and header_blocks: "[] \<notin> set header_blocks"
      by auto
    from send_chunk_loop_blocks [OF rate, of file_buffer 0 "paced_trace header_blocks"]
    obtain payload_blocks where
      payload: "send_chunk_loop (srv_transfer_speed s) file_buffer 0 (paced_trace header_blocks) =
                paced_trace header_blocks @ paced_trace payload_blocks"
      and payload_bytes: "concat payload_blocks = file_buffer"
      by auto
    have "send_one_chunk s file_name chunk file_buffer =
          Inr (paced_trace (header_blocks @ payload_blocks))"
      using header payload size by (simp add: send_one_chunk_def)
    moreover have "recv_control_message (header_blocks @ payload_blocks) [] 0 =
          (Some ?frame, payload_blocks)"
      using header_bytes header_blocks by (rule frame)
    ultimately show ?thesis
      using header_bytes header_blocks payload_bytes by blast
  qed
  have len: "length ?frame = 1024"
    by simp
  from read len short cut stripped sender show ?thesis
    by (intro conjI impI) blast+
qed

theorem control_header_roundtrip_witness:
  "build_control_message example_peer ''book.txt'' 0 256 = ''PUT book.txt 0 64 256''
   \<and> concat [take 100 (fill_control_message_buffer ''PUT book.txt 0 64 256''),
              drop 100 (fill_control_message_buffer ''PUT book.txt 0 64 256'')]
      = fill_control_message_buffer ''PUT book.txt 0 64 256''
   \<and> [] \<notin> set [take 100 (fill_control_message_buffer ''PUT book.txt 0 64 256''),
                   drop 100 (fill_control_message_buffer ''PUT book.txt 0 64 256'')]
   \<and> recv_control_message
        ([take 100 (fill_control_message_buffer ''PUT book.txt 0 64 256''),
          drop 100 (fill_control_message_buffer ''PUT book.txt 0 64 256'')]
         @ [replicate 256 (CHR ''a'')]) [] 0
      = (Some (fill_control_message_buffer ''PUT book.txt 0 64 256''), [replicate 256 (CHR ''a'')])
   \<and> strip_nul_padding (fill_control_message_buffer ''PUT book.txt 0 64 256'')
      = ''PUT book.txt 0 64 256''
   \<and> (\<exists>header_blocks payload_blocks.
         send_one_chunk example_peer ''book.txt'' 0 (replicate 256 (CHR ''a'')) =
           Inr (paced_trace (header_blocks @ payload_blocks))
       \<and> concat payload_blocks = replicate 256 (CHR ''a'')
       \<and> recv_control_message (header_blocks @ payload_blocks) [] 0 =
           (Some (fill_control_message_buffer ''PUT book.txt 0 64 256''), payload_blocks))"
proof -
  have cm: "build_control_message example_peer ''book.txt'' 0 256 = ''PUT book.txt 0 64 256''"
    by (simp add: build_control_message_def)
  let ?frame = "fill_control_message_buffer ''PUT book.txt 0 64 256''"
  have reads: "concat [take 100 ?frame, drop 100 ?frame] =
                 fill_control_message_buffer (build_control_message example_peer ''book.txt'' 0 256)"
    and parts: "[] \<notin> set [take 100 ?frame, drop 100 ?frame]"
    by (auto simp: cm)
  have short: "length (build_control_message example_peer ''book.txt'' 0 256) \<le> 1023"
    and rate: "0 < srv_transfer_speed example_peer \<and> srv_transfer_speed example_peer < 2 ^ 31
               \<and> 256 = length (replicate 256 (CHR ''a''))"
    by (simp_all add: cm)
  from control_header_roundtrip
         [OF reads parts, of "[replicate 256 (CHR ''a'')]" "replicate 256 (CHR ''a'')"]
       short rate
  have "recv_control_message ([take 100 ?frame, drop 100 ?frame] @ [replicate 256 (CHR ''a'')]) [] 0
          = (Some ?frame, [replicate 256 (CHR ''a'')])"
    and "strip_nul_padding ?frame = ''PUT book.txt 0 64 256''"
    and "\<exists>header_blocks payload_blocks.
         send_one_chunk example_peer ''book.txt'' 0 (replicate 256 (CHR ''a'')) =
           Inr (paced_trace (header_blocks @ payload_blocks))
       \<and> concat payload_blocks = replicate 256 (CHR ''a'')
       \<and> recv_control_message (header_blocks @ payload_blocks) [] 0 =
           (Some ?frame, payload_blocks)"
    unfolding cm by blast+
  with cm reads parts show ?thesis
    unfolding cm by (intro conjI)
qed

text \<open>
  Claim C9.  A peer with a positive rate \<open>r\<close> that serves a chunk of \<open>s\<close> bytes sends
  the 1024 bytes of the control header and then the \<open>s\<close> bytes of the payload in
  blocks that are not empty and have at most \<open>r\<close> bytes, each followed by a sleep
  of one second (\<open>paced_trace\<close>); the payload takes \<open>\<lceil>s / r\<rceil>\<close> blocks, and between its
  first and its last block there is one sleep for every block but the last.  With
  \<open>r = 64\<close> and \<open>s = 256\<close> that is three sleeps.
\<close>

theorem sendChunks_paced_blocks:
  assumes "0 < srv_transfer_speed s" and "srv_transfer_speed s < 2 ^ 31"
    and "connect_ok s dest_ip dest_port"
    and "files s (getChunkPath s file_name chunk) = Some file_buffer"
  shows "\<exists>s' header_blocks payload_blocks.
           sendChunks s file_name [chunk] dest_ip dest_port = Inr s'
         \<and> tcp_sent s' =
             tcp_sent s @ [(dest_ip, dest_port, paced_trace (header_blocks @ payload_blocks))]
         \<and> concat header_blocks =
             fill_control_message_buffer
               (build_control_message s file_name chunk (length file_buffer))
         \<and> length (concat header_blocks) = 1024
         \<and> concat payload_blocks = file_buffer
         \<and> (\<forall>block \<in> set (header_blocks @ payload_blocks).
               block \<noteq> [] \<and> int (length block) \<le> srv_transfer_speed s)
         \<and> length payload_blocks =
             (length file_buffer + nat (srv_transfer_speed s) - 1) div nat (srv_transfer_speed s)
         \<and> sleeps_between_first_and_last_send (paced_trace payload_blocks) =
             length payload_blocks - 1
         \<and> (srv_transfer_speed s = 64 \<and> length file_buffer = 256 \<longrightarrow>
               sleeps_between_first_and_last_send (paced_trace payload_blocks) = 3)"
proof -
  let ?frame = "fill_control_message_buffer
                  (build_control_message s file_name chunk (length file_buffer))"
  from send_control_loop_blocks [OF assms(1) length_fill_control_message_buffer, of _ 0 "[]"]
  obtain header_blocks where
    header: "send_control_loop (srv_transfer_speed s) ?frame 0 [] = Inr (paced_trace header_blocks)"
    and header_bytes: "concat header_blocks = ?frame"
    and header_small: "\<forall>block \<in> set header_blocks.
                         block \<noteq> [] \<and> int (length block) \<le> srv_transfer_speed s"
    by auto
  from send_chunk_loop_blocks [OF assms(1,2), of file_buffer 0 "paced_trace header_blocks"]
  obtain payload_blocks where
    payload: "send_chunk_loop (srv_transfer_speed s) file_buffer 0 (paced_trace header_blocks) =
              paced_trace header_blocks @ paced_trace payload_blocks"
    and payload_bytes: "concat payload_blocks = file_buffer"
    and payload_small: "\<forall>block \<in> set payload_blocks.
                          block \<noteq> [] \<and> int (length block) \<le> srv_transfer_speed s"
    and count: "length payload_blocks =
             (length file_buffer + nat (srv_transfer_speed s) - 1) div nat (srv_transfer_speed s)"
    by auto
  have one: "send_one_chunk s file_name chunk file_buffer =
             Inr (paced_trace (header_blocks @ payload_blocks))"
    using header payload by (simp add: send_one_chunk_def)
  have sent: "\<exists>s'. sendChunks s file_name [chunk] dest_ip dest_port = Inr s'
                \<and> tcp_sent s' =
                    tcp_sent s @ [(dest_ip, dest_port, paced_trace (header_blocks @ payload_blocks))]"
    using assms(3,4) one by (simp add: sendChunks_def)
  then obtain s' where
    s': "sendChunks s file_name [chunk] dest_ip dest_port = Inr s'"
      "tcp_sent s' =
         tcp_sent s @ [(dest_ip, dest_port, paced_trace (header_blocks @ payload_blocks))]"
    by blast
  have header_length: "length (concat header_blocks) = 1024"
    using header_bytes by simp
  have small: "\<forall>block \<in> set (header_blocks @ payload_blocks).
                 block \<noteq> [] \<and> int (length block) \<le> srv_transfer_speed s"
    using header_small payload_small by auto
  have sleeps: "sleeps_between_first_and_last_send (paced_trace payload_blocks) =
                length payload_blocks - 1"
    by (rule sleeps_between_paced_trace)
  have three: "srv_transfer_speed s = 64 \<and> length file_buffer = 256 \<longrightarrow>
               sleeps_between_first_and_last_send (paced_trace payload_blocks) = 3"
    using count sleeps by auto
  show ?thesis
    using s' header_bytes header_length payload_bytes small count sleeps three by blast
qed

theorem sendChunks_paced_blocks_witness:
  "0 < srv_transfer_speed
         (example_peer\<lparr>files := [''./src/1/book.txt.ch0'' \<mapsto> replicate 256 (CHR ''a'')]\<rparr>)
   \<and> files (example_peer\<lparr>files := [''./src/1/book.txt.ch0'' \<mapsto> replicate 256 (CHR ''a'')]\<rparr>)
        (getChunkPath
           (example_peer\<lparr>files := [''./src/1/book.txt.ch0'' \<mapsto> replicate 256 (CHR ''a'')]\<rparr>)
           ''book.txt'' 0)
      = Some (replicate 256 (CHR ''a''))
   \<and> (\<exists>s' header_blocks payload_blocks.
         sendChunks
           (example_peer\<lparr>files := [''./src/1/book.txt.ch0'' \<mapsto> replicate 256 (CHR ''a'')]\<rparr>)
           ''book.txt'' [0] ''10.0.0.9'' 6009 = Inr s'
         \<and> tcp_sent s' = [(''10.0.0.9'', 6009, paced_trace (header_blocks @ payload_blocks))]
         \<and> length (concat header_blocks) = 1024
         \<and> concat payload_blocks = replicate 256 (CHR ''a'')
         \<and> length payload_blocks = 4
         \<and> sleeps_between_first_and_last_send (paced_trace payload_blocks) = 3)"
proof -
  let ?s = "example_peer\<lparr>files := [''./src/1/book.txt.ch0'' \<mapsto> replicate 256 (CHR ''a'')]\<rparr>"
  have rate: "0 < srv_transfer_speed ?s" "srv_transfer_speed ?s < 2 ^ 31"
    and conn: "connect_ok ?s ''10.0.0.9'' 6009"
    by simp_all
  have chunk_file: "files ?s (getChunkPath ?s ''book.txt'' 0) = Some (replicate 256 (CHR ''a''))"
    by (simp add: getChunkPath_def)
  from sendChunks_paced_blocks [OF rate conn chunk_file]
  obtain s' header_blocks payload_blocks where
    "sendChunks ?s ''book.txt'' [0] ''10.0.0.9'' 6009 = Inr s'"
    "tcp_sent s' = tcp_sent ?s @ [(''10.0.0.9'', 6009, paced_trace (header_blocks @ payload_blocks))]"
    "length (concat header_blocks) = 1024"
    "concat payload_blocks = replicate 256 (CHR ''a'')"
    "length payload_blocks =
       (length (replicate 256 (CHR ''a'')) + nat (srv_transfer_speed ?s) - 1)
       div nat (srv_transfer_speed ?s)"
    "srv_transfer_speed ?s = 64 \<and> length (replicate 256 (CHR ''a'')) = 256 \<longrightarrow>
       sleeps_between_first_and_last_send (paced_trace payload_blocks) = 3"
    by blast
  then have "sendChunks ?s ''book.txt'' [0] ''10.0.0.9'' 6009 = Inr s'
         \<and> tcp_sent s' = [(''10.0.0.9'', 6009, paced_trace (header_blocks @ payload_blocks))]
         \<and> length (concat header_blocks) = 1024
         \<and> concat payload_blocks = replicate 256 (CHR ''a'')
         \<and> length payload_blocks = 4
         \<and> sleeps_between_first_and_last_send (paced_trace payload_blocks) = 3"
    by simp
  then show ?thesis
    using rate(1) chunk_file by blast
qed

section \<open>The assignment planner\<close>

lemma mset_insert_by_speed: "mset (insert_by_speed x xs) = add_mset x (mset xs)"
  by (induction xs) simp_all

lemma set_insert_by_speed: "set (insert_by_speed x xs) = insert x (set xs)"
  by (induction xs) auto

lemma sorted_insert_by_speed:
  "sorted_by_speed xs \<Longrightarrow> sorted_by_speed (insert_by_speed x xs)"
  by (induction xs) (auto simp: sorted_by_speed_def set_insert_by_speed)

lemma mset_insertion_sort_by_speed: "mset (insertion_sort_by_speed xs) = mset xs"
  by (induction xs) (simp_all add: insertion_sort_by_speed_def mset_insert_by_speed)

lemma sorted_insertion_sort_by_speed: "sorted_by_speed (insertion_sort_by_speed xs)"
proof (induction xs)
  case Nil
  then show ?case by (simp add: insertion_sort_by_speed_def sorted_by_speed_def)
next
  case (Cons x xs)
  then show ?case
    using sorted_insert_by_speed [of "insertion_sort_by_speed xs" x]
    by (simp add: insertion_sort_by_speed_def)
qed

lemma mset_std_sort [simp]: "mset (std_sort srt xs) = mset xs"
  by (simp add: std_sort_def mset_insertion_sort_by_speed)

lemma sorted_std_sort: "sorted_by_speed (std_sort srt xs)"
  by (simp add: std_sort_def sorted_insertion_sort_by_speed)

lemma set_std_sort [simp]: "set (std_sort srt xs) = set xs"
  using mset_std_sort [of srt xs] by (metis set_mset_mset)

lemma std_sort_eq_Nil [simp]: "std_sort srt xs = [] \<longleftrightarrow> xs = []"
  using mset_std_sort [of srt xs] by (metis mset_zero_iff)

lemma chunks_of_map_index [simp]: "chunks_of (map_index m key) k = chunks_of m k"
proof (cases "key \<in> fst ` set m")
  case True
  then show ?thesis by (simp add: map_index_def)
next
  case False
  then have "map_of m key = None"
    by (simp add: map_of_eq_None_iff)
  with False show ?thesis
    by (simp add: chunks_of_def map_index_def map_add_def split: option.splits)
qed

lemma map_of_map_entry:
  "map_of (map (\<lambda>(k, chunks). if k = key then (k, chunks @ [c]) else (k, chunks)) m) k =
   (if k = key then map_option (\<lambda>chunks. chunks @ [c]) (map_of m k) else map_of m k)"
  by (induction m) auto

lemma chunks_of_push_back:
  "chunks_of (push_back m key c) k = (if k = key then chunks_of m key @ [c] else chunks_of m k)"
proof -
  have "map_of (map_index m key) key \<noteq> None"
    by (auto simp: map_index_def map_of_eq_None_iff)
  then show ?thesis
    using chunks_of_map_index [of m key k]
    by (auto simp: push_back_def map_of_map_entry chunks_of_def split: option.splits)
qed

lemma select_loop_first_fewest:
  "select_loop ps m (selected, peer_key selected, int (length (chunks_of m (peer_key selected)))) =
     (m', result) \<Longrightarrow>
   (\<forall>k. chunks_of m' k = chunks_of m k)
   \<and> fst (snd result) =
       peer_key (first_fewest (\<lambda>p. length (chunks_of m (peer_key p))) selected ps)"
proof (induction ps arbitrary: m selected)
  case Nil
  then show ?case by auto
next
  case (Cons p ps)
  let ?m1 = "map_index m (peer_key p)"
  show ?case
  proof (cases "length (chunks_of m (peer_key p)) < length (chunks_of m (peer_key selected))")
    case True
    with Cons.prems have "select_loop ps ?m1
        (p, peer_key p, int (length (chunks_of ?m1 (peer_key p)))) = (m', result)"
      by (simp add: Let_def)
    from Cons.IH [OF this] True show ?thesis
      by simp
  next
    case False
    with Cons.prems have "select_loop ps ?m1
        (selected, peer_key selected, int (length (chunks_of ?m1 (peer_key selected)))) =
        (m', result)"
      by (simp add: Let_def)
    from Cons.IH [OF this] False show ?thesis
      by simp
  qed
qed

lemma Min_insert_larger:
  fixes a :: nat
  assumes "finite S" and "b \<in> S" and "b \<le> a"
  shows "Min (insert a S) = Min S"
proof -
  have "S \<noteq> {}"
    using assms by auto
  with assms(1) have "Min (insert a S) = min a (Min S)"
    by (rule Min_insert)
  moreover have "Min S \<le> b"
    using assms by simp
  ultimately show ?thesis
    using assms(3) by (simp add: min_def)
qed

lemma first_fewest_find:
  "find (\<lambda>p. load p = Min (load ` set (selected # ps))) (selected # ps) =
   Some (first_fewest load selected ps)"
proof (induction ps arbitrary: selected)
  case Nil
  then show ?case by simp
next
  case (Cons p ps)
  show ?case
  proof (cases "load p < load selected")
    case True
    have "Min (insert (load selected) (load ` set (p # ps))) = Min (load ` set (p # ps))"
      using True by (intro Min_insert_larger [of _ "load p"]) simp_all
    then have least: "Min (load ` set (selected # p # ps)) = Min (load ` set (p # ps))"
      by simp
    have "Min (load ` set (p # ps)) \<le> load p"
      by simp
    with True have skip: "load selected \<noteq> Min (load ` set (p # ps))"
      by linarith
    have "find (\<lambda>q. load q = Min (load ` set (selected # p # ps))) (selected # p # ps) =
          find (\<lambda>q. load q = Min (load ` set (p # ps))) (p # ps)"
      unfolding least using skip by (simp only: find.simps if_False simp_thms)
    with True Cons.IH [of p] show ?thesis
      by (simp only: first_fewest.simps if_True)
  next
    case False
    have "Min (insert (load p) (load ` set (selected # ps))) = Min (load ` set (selected # ps))"
      using False by (intro Min_insert_larger [of _ "load selected"]) simp_all
    then have least: "Min (load ` set (selected # p # ps)) = Min (load ` set (selected # ps))"
      by (simp add: insert_commute)
    have first: "first_fewest load selected (p # ps) = first_fewest load selected ps"
      using False by simp
    show ?thesis
    proof (cases "load selected = Min (load ` set (selected # ps))")
      case True
      then have "find (\<lambda>q. load q = Min (load ` set (selected # p # ps))) (selected # p # ps) =
                 Some selected"
        unfolding least by (simp only: find.simps if_True simp_thms)
      moreover from True have "find (\<lambda>q. load q = Min (load ` set (selected # ps))) (selected # ps) =
                 Some selected"
        by (simp only: find.simps if_True simp_thms)
      ultimately show ?thesis
        using Cons.IH [of selected] first by simp
    next
      case sel: False
      have "Min (load ` set (selected # ps)) \<le> load selected"
        by simp
      with sel False have skip: "load p \<noteq> Min (load ` set (selected # ps))"
        by linarith
      have "find (\<lambda>q. load q = Min (load ` set (selected # p # ps))) (selected # p # ps) =
            find (\<lambda>q. load q = Min (load ` set (selected # ps))) ps"
        unfolding least using sel skip by (simp only: find.simps if_False simp_thms)
      moreover have "find (\<lambda>q. load q = Min (load ` set (selected # ps))) (selected # ps) =
            find (\<lambda>q. load q = Min (load ` set (selected # ps))) ps"
        using sel by (simp only: find.simps if_False simp_thms)
      ultimately show ?thesis
        using Cons.IH [of selected] first by simp
    qed
  qed
qed


lemma reference_choice_first_fewest:
  "reference_choice running (x # xs) =
   Some (first_fewest (\<lambda>p. length (chunks_of running (peer_key p))) x xs)"
  using first_fewest_find [of "\<lambda>p. length (chunks_of running (peer_key p))" x xs]
  by (simp only: reference_choice_def fewest_assigned_def set_map)

lemma plan_loop_reference:
  assumes "\<forall>k. chunks_of m k = chunks_of running k"
  shows "chunks_of (plan_loop srt i table m) k = chunks_of (reference_plan srt i table running) k"
  using assms
proof (induction table arbitrary: i m running)
  case Nil
  then show ?case by simp
next
  case (Cons providers rest)
  show ?case
  proof (cases "providers = []")
    case True
    with Cons.IH [OF Cons.prems] show ?thesis
      by simp
  next
    case False
    then obtain x xs where sorted: "std_sort srt providers = x # xs"
      by (cases "std_sort srt providers") simp_all
    let ?m1 = "map_index m (peer_key x)"
    let ?load = "\<lambda>p. length (chunks_of running (peer_key p))"
    have load: "(\<lambda>p. length (chunks_of ?m1 (peer_key p))) = ?load"
      using Cons.prems by simp
    obtain m2 result where
      loop: "select_loop (x # xs) ?m1 (x, peer_key x, int (length (chunks_of ?m1 (peer_key x)))) =
             (m2, result)"
      by (cases "select_loop (x # xs) ?m1
                   (x, peer_key x, int (length (chunks_of ?m1 (peer_key x))))") blast
    from select_loop_first_fewest [OF loop]
    have view: "\<forall>k. chunks_of m2 k = chunks_of running k"
      and key: "fst (snd result) = peer_key (first_fewest ?load x (x # xs))"
      using Cons.prems by (simp_all add: load)
    define chosen where "chosen = first_fewest ?load x xs"
    have key': "fst (snd result) = peer_key chosen"
      using key by (simp add: chosen_def)
    obtain final_peer final_min where
      result: "result = (final_peer, peer_key chosen, final_min)"
      using key' by (cases result) auto
    have code: "plan_loop srt i (providers # rest) m =
                plan_loop srt (Suc i) rest (push_back m2 (peer_key chosen) (int i))"
      using False sorted loop [unfolded result]
      by (simp only: plan_loop.simps Let_def nth_Cons_0 if_True simp_thms prod.case)
    have spec: "reference_plan srt i (providers # rest) running =
                reference_plan srt (Suc i) rest (push_back running (peer_key chosen) (int i))"
      using False sorted by (simp add: reference_choice_first_fewest chosen_def)
    have "\<forall>k. chunks_of (push_back m2 (peer_key chosen) (int i)) k =
              chunks_of (push_back running (peer_key chosen) (int i)) k"
      using view by (simp add: chunks_of_push_back)
    then have "chunks_of (plan_loop srt (Suc i) rest (push_back m2 (peer_key chosen) (int i))) k =
               chunks_of (reference_plan srt (Suc i) rest
                            (push_back running (peer_key chosen) (int i))) k"
      by (rule Cons.IH)
    then show ?thesis
      by (simp only: code spec)
  qed
qed

lemma std_sort_two:
  assumes "transfer_speed a > transfer_speed b"
  shows "std_sort srt [a, b] = [a, b]" and "std_sort srt [b, a] = [a, b]"
proof -
  have ne: "a \<noteq> b"
    using assms by auto
  have two: "xs = [a, b]" if m: "mset xs = {#a, b#}" and s: "sorted_by_speed xs" for xs
  proof -
    from m have "length xs = 2"
      by (metis size_mset size_add_mset size_empty numeral_2_eq_2)
    then obtain u v where xs: "xs = [u, v]"
      by (cases xs; cases "tl xs"; cases "tl (tl xs)") auto
    from m have "set xs = {a, b}"
      by (metis set_mset_mset set_mset_add_mset_insert set_mset_empty)
    with xs have "(u = a \<and> v = b) \<or> (u = b \<and> v = a)"
      by (simp add: doubleton_eq_iff)
    moreover from s xs have "\<not> transfer_speed v > transfer_speed u"
      by (simp add: sorted_by_speed_def)
    ultimately show ?thesis
      using assms xs by auto
  qed
  have "mset (std_sort srt [a, b]) = {#a, b#}"
    by simp
  then show "std_sort srt [a, b] = [a, b]"
    by (rule two) (rule sorted_std_sort)
  have "mset (std_sort srt [b, a]) = {#a, b#}"
    by (simp add: add_mset_commute)
  then show "std_sort srt [b, a] = [a, b]"
    by (rule two) (rule sorted_std_sort)
qed

lemma peer_key_providers:
  "peer_key provider_A = ''10.0.0.2:5002''" "peer_key provider_B = ''10.0.0.3:5003''"
  by (simp_all add: peer_key_def provider_A_def provider_B_def to_string_def digits.simps)

lemma provider_speeds:
  "transfer_speed provider_A > transfer_speed provider_B"
  by (simp add: provider_A_def provider_B_def)

lemma two_entries:
  assumes "ka \<noteq> kb"
  shows "map_index [] ka = [(ka, [])]"
    and "map_index [(ka, xs)] ka = [(ka, xs)]"
    and "map_index [(ka, xs)] kb = [(ka, xs), (kb, [])]"
    and "map_index [(ka, xs), (kb, ys)] ka = [(ka, xs), (kb, ys)]"
    and "map_index [(ka, xs), (kb, ys)] kb = [(ka, xs), (kb, ys)]"
    and "chunks_of [(ka, xs)] ka = xs"
    and "chunks_of [(ka, xs), (kb, ys)] ka = xs"
    and "chunks_of [(ka, xs), (kb, ys)] kb = ys"
    and "push_back [(ka, xs), (kb, ys)] ka c = [(ka, xs @ [c]), (kb, ys)]"
    and "push_back [(ka, xs), (kb, ys)] kb c = [(ka, xs), (kb, ys @ [c])]"
  using assms by (auto simp: map_index_def chunks_of_def push_back_def)

lemma plan_loop_first_chunk:
  assumes "peer_key a \<noteq> peer_key b" and "std_sort srt c = [a, b]" and "c \<noteq> []"
  shows "plan_loop srt i (c # rest) [] =
         plan_loop srt (Suc i) rest [(peer_key a, [int i]), (peer_key b, [])]"
proof -
  have "select_loop [a, b] [(peer_key a, [])] (a, peer_key a, 0) =
        ([(peer_key a, []), (peer_key b, [])], a, peer_key a, 0)"
    by (simp add: Let_def two_entries [OF assms(1)])
  then show ?thesis
    using assms(2,3) two_entries(9) [OF assms(1), of "[]" "[]" "int i"]
    by (simp add: Let_def two_entries(1,6) [OF assms(1)])
qed

lemma plan_loop_next_chunk:
  assumes "peer_key a \<noteq> peer_key b" and "std_sort srt c = [a, b]" and "c \<noteq> []"
  shows "plan_loop srt i (c # rest) [(peer_key a, xs), (peer_key b, ys)] =
         plan_loop srt (Suc i) rest
           (if length ys < length xs then [(peer_key a, xs), (peer_key b, ys @ [int i])]
            else [(peer_key a, xs @ [int i]), (peer_key b, ys)])"
proof -
  let ?m = "[(peer_key a, xs), (peer_key b, ys)]"
  have "select_loop [a, b] ?m (a, peer_key a, int (length xs)) =
        (?m, if length ys < length xs then (b, peer_key b, int (length ys))
             else (a, peer_key a, int (length xs)))"
    by (simp add: Let_def two_entries [OF assms(1)])
  then show ?thesis
    using assms(2,3)
    by (simp add: Let_def two_entries(4,7,9,10) [OF assms(1)])
qed

lemma plan_loop_two_providers:
  assumes "peer_key a \<noteq> peer_key b"
    and "std_sort srt c0 = [a, b]" "std_sort srt c1 = [a, b]"
    and "std_sort srt c2 = [a, b]" "std_sort srt c3 = [a, b]"
    and "c0 \<noteq> []" "c1 \<noteq> []" "c2 \<noteq> []" "c3 \<noteq> []"
  shows "plan_loop srt 0 [c0, c1, c2, c3] [] = [(peer_key a, [0, 2]), (peer_key b, [1, 3])]"
proof -
  have "plan_loop srt 0 [c0, c1, c2, c3] [] =
        plan_loop srt (Suc 0) [c1, c2, c3] [(peer_key a, [0]), (peer_key b, [])]"
    using plan_loop_first_chunk [OF assms(1,2,6), of 0 "[c1, c2, c3]"]
    by (simp del: plan_loop.simps)
  also have "\<dots> = plan_loop srt (Suc (Suc 0)) [c2, c3] [(peer_key a, [0]), (peer_key b, [1])]"
    using assms(1,3,7) by (simp add: plan_loop_next_chunk del: plan_loop.simps)
  also have "\<dots> = plan_loop srt (Suc (Suc (Suc 0))) [c3] [(peer_key a, [0, 2]), (peer_key b, [1])]"
    using assms(1,4,8) by (simp add: plan_loop_next_chunk del: plan_loop.simps)
  also have "\<dots> = plan_loop srt (Suc (Suc (Suc (Suc 0)))) [] [(peer_key a, [0, 2]), (peer_key b, [1, 3])]"
    using assms(1,5,9) by (simp add: plan_loop_next_chunk del: plan_loop.simps)
  finally show ?thesis
    by simp
qed

lemma plan_loop_example:
  assumes "\<forall>c \<in> set table. c = [provider_A, provider_B] \<or> c = [provider_B, provider_A]"
    and "length table = 4"
  shows "plan_loop srt 0 table [] =
         [(''10.0.0.2:5002'', [0, 2]), (''10.0.0.3:5003'', [1, 3])]"
proof -
  obtain c0 c1 c2 c3 where table: "table = [c0, c1, c2, c3]"
    using assms(2) by (auto simp: length_Suc_conv numeral_eq_Suc)
  have sorted: "std_sort srt c = [provider_A, provider_B]" and ne: "c \<noteq> []"
    if "c \<in> set table" for c
    using that assms(1) std_sort_two [OF provider_speeds, of srt] by auto
  have "peer_key provider_A \<noteq> peer_key provider_B"
    by (simp add: peer_key_providers)
  then have "plan_loop srt 0 [c0, c1, c2, c3] [] =
    [(peer_key provider_A, [0, 2]), (peer_key provider_B, [1, 3])]"
    by (rule plan_loop_two_providers) (simp_all add: sorted ne table)
  then show ?thesis
    by (simp only: table peer_key_providers)
qed

lemma reference_plan_step:
  assumes "peer_key a \<noteq> peer_key b" and "std_sort srt c = [a, b]" and "c \<noteq> []"
  shows "reference_plan srt i (c # rest) [] =
         reference_plan srt (Suc i) rest [(peer_key a, [int i])]"
    and "reference_plan srt i (c # rest) [(peer_key a, xs)] =
         reference_plan srt (Suc i) rest
           (if xs = [] then [(peer_key a, xs @ [int i])]
            else [(peer_key a, xs), (peer_key b, [int i])])"
    and "reference_plan srt i (c # rest) [(peer_key a, xs), (peer_key b, ys)] =
         reference_plan srt (Suc i) rest
           (if length ys < length xs then [(peer_key a, xs), (peer_key b, ys @ [int i])]
            else [(peer_key a, xs @ [int i]), (peer_key b, ys)])"
  using assms
  by (auto simp: reference_choice_first_fewest chunks_of_def push_back_def map_index_def)

lemma reference_plan_example:
  assumes "\<forall>c \<in> set table. c = [provider_A, provider_B] \<or> c = [provider_B, provider_A]"
    and "length table = 4"
  shows "reference_plan srt 0 table [] =
         [(''10.0.0.2:5002'', [0, 2]), (''10.0.0.3:5003'', [1, 3])]"
proof -
  obtain c0 c1 c2 c3 where table: "table = [c0, c1, c2, c3]"
    using assms(2) by (auto simp: length_Suc_conv numeral_eq_Suc)
  have sorted: "std_sort srt c = [provider_A, provider_B]" and ne: "c \<noteq> []"
    if "c \<in> set table" for c
    using that assms(1) std_sort_two [OF provider_speeds, of srt] by auto
  have keys: "peer_key provider_A \<noteq> peer_key provider_B"
    by (simp add: peer_key_providers)
  note step = reference_plan_step [OF keys sorted ne]
  have "reference_plan srt 0 [c0, c1, c2, c3] [] =
        reference_plan srt (Suc 0) [c1, c2, c3] [(peer_key provider_A, [0])]"
    using step(1) [of c0 0 "[c1, c2, c3]"] by (simp add: table del: reference_plan.simps)
  also have "\<dots> = reference_plan srt (Suc (Suc 0)) [c2, c3]
                     [(peer_key provider_A, [0]), (peer_key provider_B, [1])]"
    using step(2) [of c1 "Suc 0" "[c2, c3]" "[0]"] by (simp add: table del: reference_plan.simps)
  also have "\<dots> = reference_plan srt (Suc (Suc (Suc 0))) [c3]
                     [(peer_key provider_A, [0, 2]), (peer_key provider_B, [1])]"
    using step(3) [of c2 "Suc (Suc 0)" "[c3]" "[0]" "[1]"]
    by (simp add: table del: reference_plan.simps)
  also have "\<dots> = reference_plan srt (Suc (Suc (Suc (Suc 0)))) []
                     [(peer_key provider_A, [0, 2]), (peer_key provider_B, [1, 3])]"
    using step(3) [of c3 "Suc (Suc (Suc 0))" "[]" "[0, 2]" "[1]"]
    by (simp add: table del: reference_plan.simps)
  finally show ?thesis
    by (simp add: table peer_key_providers)
qed

lemma keys_map_index: "distinct (map fst m) \<Longrightarrow> distinct (map fst (map_index m key))"
  by (auto simp: map_index_def)

lemma keys_push_back: "map fst (push_back m key c) = map fst (map_index m key)"
  by (auto simp: push_back_def)

lemma keys_select_loop:
  "distinct (map fst m) \<Longrightarrow> distinct (map fst (fst (select_loop ps m selected)))"
proof (induction ps m selected rule: select_loop.induct)
  case (1 m selected)
  then show ?case by simp
next
  case (2 p rest m selected_peer selected_peer_key min_chunks_assigned)
  from "2.prems" have "distinct (map fst (map_index m (peer_key p)))"
    by (rule keys_map_index)
  with "2.IH" show ?case
    by (simp add: Let_def)
qed

lemma keys_plan_loop:
  "distinct (map fst m) \<Longrightarrow> distinct (map fst (plan_loop srt i table m))"
proof (induction table arbitrary: i m)
  case Nil
  then show ?case by simp
next
  case (Cons providers rest)
  show ?case
  proof (cases "providers = []")
    case True
    with Cons show ?thesis by simp
  next
    case False
    let ?x = "std_sort srt providers ! 0"
    let ?m1 = "map_index m (peer_key ?x)"
    let ?r = "select_loop (std_sort srt providers) ?m1
                (?x, peer_key ?x, int (length (chunks_of ?m1 (peer_key ?x))))"
    have "distinct (map fst (fst ?r))"
      by (intro keys_select_loop keys_map_index Cons.prems)
    then have "distinct (map fst (push_back (fst ?r) (fst (snd (snd ?r))) (int i)))"
      by (simp only: keys_push_back keys_map_index)
    from Cons.IH [OF this] False show ?thesis
      by (simp add: Let_def split_beta del: select_loop.simps)
  qed
qed

lemma reference_plan_outside:
  "j < int i \<or> int (i + length table) \<le> j \<Longrightarrow>
   (j \<in> set (chunks_of (reference_plan srt i table running) k)) =
   (j \<in> set (chunks_of running k))"
proof (induction table arbitrary: i running)
  case Nil
  then show ?case by simp
next
  case (Cons providers rest)
  from Cons.prems have out: "j < int (Suc i) \<or> int (Suc i + length rest) \<le> j" and ne: "j \<noteq> int i"
    by auto
  show ?case
  proof (cases "providers = []")
    case True
    with Cons.IH [OF out] show ?thesis by simp
  next
    case False
    then obtain x xs where sorted: "std_sort srt providers = x # xs"
      by (cases "std_sort srt providers") simp_all
    show ?thesis
      using False ne Cons.IH [OF out]
      by (simp add: sorted reference_choice_first_fewest chunks_of_push_back)
  qed
qed

lemma first_fewest_in: "first_fewest load x xs \<in> set (x # xs)"
  by (induction xs arbitrary: x) auto

lemma reference_plan_inside:
  assumes "d < length table" and "\<forall>k. int (i + d) \<notin> set (chunks_of running k)"
  shows "(table ! d = [] \<longrightarrow>
            (\<forall>k. int (i + d) \<notin> set (chunks_of (reference_plan srt i table running) k)))
       \<and> (table ! d \<noteq> [] \<longrightarrow>
            (\<exists>p \<in> set (table ! d).
               \<forall>k. (int (i + d) \<in> set (chunks_of (reference_plan srt i table running) k)) =
                   (k = peer_key p)))"
  using assms
proof (induction table arbitrary: i d running)
  case Nil
  then show ?case by simp
next
  case (Cons providers rest)
  show ?case
  proof (cases "providers = []")
    case True
    show ?thesis
    proof (cases d)
      case 0
      with True Cons.prems(2) show ?thesis
        by (simp add: reference_plan_outside)
    next
      case (Suc d')
      with Cons.prems have "d' < length rest" "\<forall>k. int (Suc i + d') \<notin> set (chunks_of running k)"
        by simp_all
      from Cons.IH [OF this] True Suc show ?thesis
        by simp
    qed
  next
    case False
    then obtain x xs where sorted: "std_sort srt providers = x # xs"
      by (cases "std_sort srt providers") simp_all
    define p where "p = first_fewest (\<lambda>p. length (chunks_of running (peer_key p))) x xs"
    have "p \<in> set (std_sort srt providers)"
      unfolding p_def sorted by (rule first_fewest_in)
    then have p: "p \<in> set providers"
      by simp
    define running' where "running' = push_back running (peer_key p) (int i)"
    have step: "reference_plan srt i (providers # rest) running =
                reference_plan srt (Suc i) rest running'"
      using False by (simp add: sorted reference_choice_first_fewest p_def running'_def)
    show ?thesis
    proof (cases d)
      case 0
      have "(int i \<in> set (chunks_of (reference_plan srt (Suc i) rest running') k)) =
            (k = peer_key p)" for k
        using Cons.prems(2) 0
        by (simp add: reference_plan_outside running'_def chunks_of_push_back)
      with False p 0 show ?thesis
        unfolding step by auto
    next
      case (Suc d')
      with Cons.prems have "d' < length rest"
        "\<forall>k. int (Suc i + d') \<notin> set (chunks_of running' k)"
        by (simp_all add: running'_def chunks_of_push_back)
      from Cons.IH [OF this] Suc show ?thesis
        unfolding step by simp
    qed
  qed
qed

lemma keys_map_index_set: "fst ` set (map_index m key) = insert key (fst ` set m)"
  by (auto simp: map_index_def)

lemma keys_push_back_set: "fst ` set (push_back m key c) = insert key (fst ` set m)"
  using keys_push_back [of m key c] keys_map_index_set [of m key]
  by (metis list.set_map)

lemma keys_select_loop_set:
  "fst ` set (fst (select_loop ps m selected)) = fst ` set m \<union> peer_key ` set ps"
proof (induction ps m selected rule: select_loop.induct)
  case (1 m selected)
  then show ?case by simp
next
  case (2 p rest m selected_peer selected_peer_key min_chunks_assigned)
  then show ?case
    by (simp add: Let_def keys_map_index_set)
qed

lemma select_loop_key_in:
  "fst (snd (snd (select_loop ps m (selected, key, least)))) \<in> insert key (peer_key ` set ps)"
  by (induction ps arbitrary: m selected key least) (auto simp: Let_def)

lemma keys_plan_loop_set:
  "fst ` set (plan_loop srt i table m) = fst ` set m \<union> peer_key ` (\<Union>providers \<in> set table. set providers)"
proof (induction table arbitrary: i m)
  case Nil
  then show ?case by simp
next
  case (Cons providers rest)
  show ?case
  proof (cases "providers = []")
    case True
    with Cons.IH [of "Suc i" m] show ?thesis by simp
  next
    case False
    then obtain x xs where sorted: "std_sort srt providers = x # xs"
      by (cases "std_sort srt providers") simp_all
    let ?m1 = "map_index m (peer_key x)"
    let ?r = "select_loop (x # xs) ?m1 (x, peer_key x, int (length (chunks_of ?m1 (peer_key x))))"
    have all: "peer_key ` set (x # xs) = peer_key ` set providers"
      using set_std_sort [of srt providers] by (simp only: sorted)
    have keys: "fst ` set (fst ?r) = fst ` set m \<union> peer_key ` set providers"
      unfolding keys_select_loop_set keys_map_index_set all [symmetric] by auto
    have "fst (snd (snd ?r)) \<in> insert (peer_key x) (peer_key ` set (x # xs))"
      by (rule select_loop_key_in)
    then have "fst (snd (snd ?r)) \<in> peer_key ` set providers"
      unfolding all [symmetric] by auto
    with keys have "fst ` set (push_back (fst ?r) (fst (snd (snd ?r))) (int i)) =
               fst ` set m \<union> peer_key ` set providers"
      by (auto simp: keys_push_back_set)
    with Cons.IH [of "Suc i" "push_back (fst ?r) (fst (snd (snd ?r))) (int i)"]
    have "fst ` set (plan_loop srt (Suc i) rest (push_back (fst ?r) (fst (snd (snd ?r))) (int i))) =
          fst ` set m \<union> peer_key ` set providers
          \<union> peer_key ` (\<Union>providers \<in> set rest. set providers)"
      by simp
    moreover have "plan_loop srt i (providers # rest) m =
          plan_loop srt (Suc i) rest (push_back (fst ?r) (fst (snd (snd ?r))) (int i))"
      using False sorted by (simp add: Let_def split_beta del: select_loop.simps)
    ultimately show ?thesis
      by auto
  qed
qed

text \<open>
  What the planner and the reference algorithm agree on, for every table and every
  outcome of \<open>std::sort\<close>: the keys of the plan are distinct, they are the keys of
  all providers of all chunks, and the list under each key is the list the reference
  algorithm gives that provider (the empty list when it gives it none).  So a chunk
  without providers is in no list and a chunk with providers is in the list of
  exactly one provider, one of its own.  For four chunks that each have the
  providers A (rate 100) and B (rate 50) the plan is the reference map: chunks 0 and
  2 for A, chunks 1 and 3 for B.
\<close>

lemma selectPeersForChunkDownload_lists:
  assumes "chunk_location_info s file_name = Some table"
  shows "\<exists>plan.
           fst (selectPeersForChunkDownload srt s file_name) = Inr plan
         \<and> distinct (map fst plan)
         \<and> fst ` set plan = peer_key ` (\<Union>providers \<in> set table. set providers)
         \<and> (\<forall>key. chunks_of plan key = chunks_of (reference_plan srt 0 table []) key)
         \<and> (\<forall>providers \<in> set table.
               mset (std_sort srt providers) = mset providers
             \<and> sorted_by_speed (std_sort srt providers))
         \<and> (\<forall>i < length table.
               (table ! i = [] \<longrightarrow> (\<forall>key. int i \<notin> set (chunks_of plan key)))
             \<and> (table ! i \<noteq> [] \<longrightarrow>
                  (\<exists>p \<in> set (table ! i).
                     \<forall>key. (int i \<in> set (chunks_of plan key)) = (key = peer_key p))))
         \<and> (length table = 4
             \<and> (\<forall>providers \<in> set table.
                   providers = [provider_A, provider_B] \<or> providers = [provider_B, provider_A])
             \<longrightarrow> plan = [(''10.0.0.2:5002'', [0, 2]), (''10.0.0.3:5003'', [1, 3])]
               \<and> reference_plan srt 0 table [] = plan)"
proof -
  let ?plan = "plan_loop srt 0 table []"
  have returned: "fst (selectPeersForChunkDownload srt s file_name) = Inr ?plan"
    using assms by (simp add: selectPeersForChunkDownload_def)
  have keys: "distinct (map fst ?plan)"
    by (rule keys_plan_loop) simp
  have entries: "fst ` set ?plan = peer_key ` (\<Union>providers \<in> set table. set providers)"
    by (simp add: keys_plan_loop_set)
  have "\<forall>k. chunks_of [] k = chunks_of [] k"
    by simp
  then have reference: "chunks_of ?plan key = chunks_of (reference_plan srt 0 table []) key" for key
    by (rule plan_loop_reference)
  have sorting: "\<forall>providers \<in> set table.
      mset (std_sort srt providers) = mset providers \<and> sorted_by_speed (std_sort srt providers)"
    by (simp add: sorted_std_sort)
  have once: "(table ! i = [] \<longrightarrow> (\<forall>key. int i \<notin> set (chunks_of ?plan key)))
       \<and> (table ! i \<noteq> [] \<longrightarrow>
            (\<exists>p \<in> set (table ! i).
               \<forall>key. (int i \<in> set (chunks_of ?plan key)) = (key = peer_key p)))"
    if "i < length table" for i
  proof -
    have "\<forall>k. int (0 + i) \<notin> set (chunks_of [] k)"
      by (simp add: chunks_of_def)
    from reference_plan_inside [OF that this, of srt] show ?thesis
      by (simp add: reference)
  qed
  have example: "?plan = [(''10.0.0.2:5002'', [0, 2]), (''10.0.0.3:5003'', [1, 3])]
      \<and> reference_plan srt 0 table [] = ?plan"
    if "length table = 4"
      and "\<forall>providers \<in> set table.
             providers = [provider_A, provider_B] \<or> providers = [provider_B, provider_A]"
    using that(2,1) by (simp add: plan_loop_example reference_plan_example)
  from returned keys entries reference sorting once example show ?thesis
    by blast
qed

lemma unselected_provider_peer_simps [simp]:
  "chunk_location_info unselected_provider_peer =
     [''book.txt'' \<mapsto> [[provider_A, provider_B]]]"
  "srv_tcp_port unselected_provider_peer = 6001"
  "udp_sent unselected_provider_peer = []"
  "sendto_ok unselected_provider_peer = (\<lambda>_ _. True)"
  by (simp_all add: unselected_provider_peer_def)

lemma stoi_ports: "stoi ''5002'' = Inr 5002" "stoi ''5003'' = Inr 5003"
  by (simp_all add: stoi_def split_sign_def isspace_def isdigit_def digits_value_def)

text \<open>
  Claim C1.  The planner returns exactly the map of the reference algorithm.  It
  does not when a provider of some chunk is chosen for no chunk: the inner loop
  reads the number of chunks of every provider with \<^verbatim>\<open>chunks_by_peer_map[key].size()\<close>,
  which creates the key, so the returned map has an entry with an empty list for
  that provider, where the reference map, to which only chosen providers are added,
  has none.  With one chunk held by A (rate 100) and B (rate 50), whatever
  \<open>std::sort\<close> does, the planner returns A with chunk 0 and B with no chunk, the
  reference map is A with chunk 0, and \<open>sendChunkRequestMessage\<close>, which sends one
  REQUEST for every entry of the map, sends B a REQUEST that asks for no chunk.
\<close>

theorem selectPeersForChunkDownload_unselected_provider:
  "chunk_location_info unselected_provider_peer ''book.txt'' = Some [[provider_A, provider_B]]
   \<and> fst (selectPeersForChunkDownload srt unselected_provider_peer ''book.txt'') =
       Inr [(''10.0.0.2:5002'', [0]), (''10.0.0.3:5003'', [])]
   \<and> reference_plan srt 0 [[provider_A, provider_B]] [] = [(''10.0.0.2:5002'', [0])]
   \<and> \<not> isl (sendChunkRequestMessage srt unselected_provider_peer ''book.txt'')
   \<and> udp_sent (projr (sendChunkRequestMessage srt unselected_provider_peer ''book.txt'')) =
       [(''10.0.0.2'', 5002, ''REQUEST book.txt 6001 0 ''),
        (''10.0.0.3'', 5003, ''REQUEST book.txt 6001 '')]"
proof -
  have keys: "peer_key provider_A \<noteq> peer_key provider_B"
    by (simp add: peer_key_providers)
  have sorted: "std_sort srt [provider_A, provider_B] = [provider_A, provider_B]"
    by (rule std_sort_two [OF provider_speeds])
  have "plan_loop srt 0 [[provider_A, provider_B]] [] =
        plan_loop srt (Suc 0) [] [(peer_key provider_A, [int 0]), (peer_key provider_B, [])]"
    using keys sorted by (rule plan_loop_first_chunk) simp
  then have plan: "plan_loop srt 0 [[provider_A, provider_B]] [] =
        [(''10.0.0.2:5002'', [0]), (''10.0.0.3:5003'', [])]"
    by (simp add: peer_key_providers)
  have "reference_plan srt 0 [[provider_A, provider_B]] [] =
        reference_plan srt (Suc 0) [] [(peer_key provider_A, [int 0])]"
    using keys sorted by (rule reference_plan_step) simp
  then have reference: "reference_plan srt 0 [[provider_A, provider_B]] [] =
        [(''10.0.0.2:5002'', [0])]"
    by (simp add: peer_key_providers)
  let ?s1 = "unselected_provider_peer
               \<lparr>chunk_location_info_mutex :=
                  insert ''book.txt'' (chunk_location_info_mutex unselected_provider_peer)\<rparr>"
  have selected: "selectPeersForChunkDownload srt unselected_provider_peer ''book.txt'' =
        (Inr [(''10.0.0.2:5002'', [0]), (''10.0.0.3:5003'', [])], ?s1)"
    by (simp add: selectPeersForChunkDownload_def plan del: plan_loop.simps)
  have requests: "\<exists>s'. request_loop ?s1 ''book.txt''
                         [(''10.0.0.2:5002'', [0]), (''10.0.0.3:5003'', [])] = Inr s'
        \<and> udp_sent s' = [(''10.0.0.2'', 5002, ''REQUEST book.txt 6001 0 ''),
                           (''10.0.0.3'', 5003, ''REQUEST book.txt 6001 '')]"
    by (simp add: sendUDPMessage_def buildChunkRequestMessage_def stoi_ports
        to_string_def digits.simps Let_def)
  have "sendChunkRequestMessage srt unselected_provider_peer ''book.txt'' =
        request_loop ?s1 ''book.txt'' [(''10.0.0.2:5002'', [0]), (''10.0.0.3:5003'', [])]"
    by (simp add: sendChunkRequestMessage_def selected)
  with requests
  have sent: "\<not> isl (sendChunkRequestMessage srt unselected_provider_peer ''book.txt'')"
    "udp_sent (projr (sendChunkRequestMessage srt unselected_provider_peer ''book.txt'')) =
       [(''10.0.0.2'', 5002, ''REQUEST book.txt 6001 0 ''),
        (''10.0.0.3'', 5003, ''REQUEST book.txt 6001 '')]"
    by auto
  show ?thesis
    using selected reference sent by simp
qed

end
